theory Spec2Isabelle
  imports Main "HOL-Library.Sublist"
begin

section \<open>The browser as an environment\<close>

text \<open>
  The scripts \<^verbatim>\<open>ask_gemini.py\<close> and \<^verbatim>\<open>generate_image.py\<close> drive a web page through
  the Playwright API. Everything the page answers is outside the program, so it is taken as
  a record of oracles, one field per API call the scripts make. A call that raises returns
  \<open>Inl\<close> of the exception; the scripts catch every exception by \<^verbatim>\<open>except Exception\<close> or
  a bare \<^verbatim>\<open>except\<close>, so the kind of the exception never decides a branch.

  The calls \<^verbatim>\<open>print\<close>, \<^verbatim>\<open>time.sleep\<close>, \<^verbatim>\<open>time.time\<close>, \<^verbatim>\<open>Path\<close>,
  \<^verbatim>\<open>get_chrome_path\<close> (which runs before the browser is launched) and those of the
  \<^verbatim>\<open>AuthManager\<close> (which run before anything is acquired) are taken to return.

  Python strings are \<open>string\<close>s whose characters stand for code points below 256; the
  selector constant with other code points is written in UTF-8.
\<close>

type_synonym selector = string
type_synonym element = nat
type_synonym cookie = string

datatype error = PlaywrightError | TimeoutError | OSError

text \<open>
  A saved file: \<^verbatim>\<open>output_path / f"gemini_image_{i+1}_{int(time.time())}{ext}"\<close>, kept as
  its four parts (output directory, ordinal, time stamp, extension).
\<close>

datatype saved_path = SavedPath string nat nat string

text \<open>
  Calls made on the page inside the \<^verbatim>\<open>try\<close> block, and the calls that acquire and
  release the session. A trace pairs each call with whether it returned (\<open>True\<close>) or raised.
\<close>

datatype action =
    NewPage
  | Goto
  | Sleep nat
  | WaitForSelector selector nat
  | QuerySelector selector
  | IsVisible element
  | Click element
  | TypeText element string nat
  | Fill element string
  | Evaluate selector string
  | PressEnter
  | QuerySelectorAll selector
  | InnerText element
  | GetAttribute element
  | Mkdir
  | ElementQuerySelector element selector
  | ClickDownload element
  | SaveAs saved_path
  | Screenshot element saved_path

type_synonym step = "action \<times> bool"

datatype lifecycle =
    StartPlaywright
  | ChromiumLaunch bool
  | StateFileExists
  | LoadState
  | AddCookies "cookie list"
  | ContextClose
  | PlaywrightStop

datatype event = Session lifecycle bool | Step action bool

record env =
  is_authenticated :: bool
  start_playwright :: "error + unit"
  chromium_launch :: "bool \<Rightarrow> error + unit"
  state_file_exists :: "error + bool"
  load_state :: "error + cookie list option"
  add_cookies :: "cookie list \<Rightarrow> error + unit"
  context_close :: "error + unit"
  playwright_stop :: "error + unit"
  new_page :: "error + unit"
  goto :: "error + unit"
  wait_for_selector :: "selector \<Rightarrow> nat \<Rightarrow> error + element option"
  query_selector :: "selector \<Rightarrow> error + element option"
  is_visible :: "element \<Rightarrow> error + bool"
  click :: "element \<Rightarrow> error + unit"
  type_text :: "element \<Rightarrow> string \<Rightarrow> nat \<Rightarrow> error + unit"
  fill :: "element \<Rightarrow> string \<Rightarrow> error + unit"
  evaluate :: "selector \<Rightarrow> string \<Rightarrow> error + unit"
  press_enter :: "error + unit"
  lag :: "nat \<Rightarrow> nat"
  query_selector_all :: "nat \<Rightarrow> selector \<Rightarrow> error + element list"
  inner_text :: "nat \<Rightarrow> element \<Rightarrow> error + string"
  get_attribute_src :: "nat \<Rightarrow> element \<Rightarrow> error + string option"
  mkdir :: "error + unit"
  query_generated_images :: "error + element list"
  element_query_selector :: "nat \<Rightarrow> element \<Rightarrow> selector \<Rightarrow> error + element option"
  click_download :: "element \<Rightarrow> error + string"
  save_as :: "saved_path \<Rightarrow> error + unit"
  screenshot :: "nat \<Rightarrow> element \<Rightarrow> saved_path \<Rightarrow> error + unit"
  time_time :: "nat \<Rightarrow> nat \<Rightarrow> nat"

text \<open>
  The oracles called while polling carry the number of the poll (the tick) as first
  argument: the page changes between polls. \<open>lag env k\<close> is the time in milliseconds that
  the page calls have taken up to poll \<open>k\<close>, beyond the one second slept after each poll,
  so that \<^verbatim>\<open>time.time()\<close> at the head of poll \<open>k\<close> reads \<open>1000 * k + lag env k\<close> after the
  start of the loop. \<open>element_query_selector\<close> and \<open>screenshot\<close> carry the attempt (0 in the
  \<^verbatim>\<open>try\<close> block, 1 in its handler). \<open>click_download\<close> is the click under
  \<^verbatim>\<open>page.expect_download()\<close>; it returns \<^verbatim>\<open>Path(download.suggested_filename).suffix\<close>.
  \<open>time_time env a i\<close> is \<^verbatim>\<open>int(time.time())\<close> when item \<open>i\<close> is named in attempt \<open>a\<close>.
  An oracle answers the same question in the same way each time; the selector lists of the
  scripts have no duplicates, so that a run asks each question once.
\<close>

section \<open>Strings\<close>

text \<open>\<^verbatim>\<open>str.strip()\<close>: the characters below 256 for which \<^verbatim>\<open>str.isspace\<close> holds.\<close>

definition is_space :: "char \<Rightarrow> bool" where
  "is_space ch =
     (let n = (of_char ch :: nat)
      in (9 \<le> n \<and> n \<le> 13) \<or> (28 \<le> n \<and> n \<le> 32) \<or> n = 133 \<or> n = 160)"

definition strip :: "string \<Rightarrow> string" where
  "strip s = rev (dropWhile is_space (rev (dropWhile is_space s)))"

text \<open>Truthiness of an optional string (\<^verbatim>\<open>if answer:\<close>) and of an optional list.\<close>

fun truthy_str :: "string option \<Rightarrow> bool" where
  "truthy_str None = False"
| "truthy_str (Some s) = (s \<noteq> [])"

fun truthy_list :: "'a list option \<Rightarrow> bool" where
  "truthy_list None = False"
| "truthy_list (Some xs) = (xs \<noteq> [])"

definition succeeded :: "error + 'a \<Rightarrow> bool" where
  "succeeded r = (case r of Inl _ \<Rightarrow> False | Inr _ \<Rightarrow> True)"

section \<open>ask\_gemini.py\<close>

definition GEMINI_INPUT_SELECTORS :: "selector list" where
  "GEMINI_INPUT_SELECTORS =
    [''rich-textarea[placeholder*='' @
       [CHR 0x27, CHR 0xE8, CHR 0xBE, CHR 0x93, CHR 0xE5, CHR 0x85, CHR 0xA5, CHR 0x27] @ '']'',
     ''rich-textarea[placeholder*='Enter']'',
     ''rich-textarea'',
     ''.ql-editor[contenteditable='true']'',
     ''div[contenteditable='true'][role='textbox']'']"

definition GEMINI_RESPONSE_SELECTORS :: "selector list" where
  "GEMINI_RESPONSE_SELECTORS =
    [''.model-response-text'',
     ''.response-container .markdown'',
     ''message-content'',
     ''[data-test-id*='conversation']'',
     ''.markdown'',
     ''[class*='response']'',
     ''[class*='message']'',
     ''div[class*='model']'']"

subsection \<open>Finding the input field (lines 92 to 108)\<close>

text \<open>
  \<^verbatim>\<open>for selector in SELECTORS: try: input_element = page.wait_for_selector(selector,
  timeout=..., state="visible"); if input_element: break; except: continue\<close>. The same loop
  finds the input field of \<^verbatim>\<open>generate_image\<close> (lines 115 to 122).
\<close>

fun find_input :: "env \<Rightarrow> nat \<Rightarrow> selector list \<Rightarrow> element option \<times> step list" where
  "find_input env timeout [] = (None, [])"
| "find_input env timeout (sel # sels) =
     (case wait_for_selector env sel timeout of
        Inl e \<Rightarrow>
          (let (r, tr) = find_input env timeout sels
           in (r, (WaitForSelector sel timeout, False) # tr))
      | Inr None \<Rightarrow>
          (let (r, tr) = find_input env timeout sels
           in (r, (WaitForSelector sel timeout, True) # tr))
      | Inr (Some el) \<Rightarrow> (Some el, [(WaitForSelector sel timeout, True)]))"

subsection \<open>The selector that works (lines 126 to 134)\<close>

fun find_working_selector :: "env \<Rightarrow> selector list \<Rightarrow> selector option \<times> step list" where
  "find_working_selector env [] = (None, [])"
| "find_working_selector env (sel # sels) =
     (case query_selector env sel of
        Inl e \<Rightarrow>
          (let (r, tr) = find_working_selector env sels
           in (r, (QuerySelector sel, False) # tr))
      | Inr None \<Rightarrow>
          (let (r, tr) = find_working_selector env sels
           in (r, (QuerySelector sel, True) # tr))
      | Inr (Some el) \<Rightarrow>
          (case is_visible env el of
             Inl e \<Rightarrow>
               (let (r, tr) = find_working_selector env sels
                in (r, (QuerySelector sel, True) # (IsVisible el, False) # tr))
           | Inr False \<Rightarrow>
               (let (r, tr) = find_working_selector env sels
                in (r, (QuerySelector sel, True) # (IsVisible el, True) # tr))
           | Inr True \<Rightarrow> (Some sel, [(QuerySelector sel, True), (IsVisible el, True)])))"

subsection \<open>Typing the question (lines 140 to 167)\<close>

text \<open>
  Method 3 is \<^verbatim>\<open>page.evaluate\<close> of a script that sets the value of the element found by
  \<open>working_selector\<close> and dispatches \<^verbatim>\<open>input\<close> and \<^verbatim>\<open>change\<close>. The result is \<open>False\<close>
  where the source returns \<^verbatim>\<open>None\<close> from \<^verbatim>\<open>ask_gemini\<close> (line 167).
\<close>

definition typing_method_3 :: "env \<Rightarrow> selector \<Rightarrow> string \<Rightarrow> bool \<times> step list" where
  "typing_method_3 env working_selector question =
     (case evaluate env working_selector question of
        Inl e3 \<Rightarrow> (False, [(Evaluate working_selector question, False)])
      | Inr _ \<Rightarrow> (True, [(Evaluate working_selector question, True)]))"

definition typing_method_2 :: "env \<Rightarrow> element \<Rightarrow> selector \<Rightarrow> string \<Rightarrow> bool \<times> step list" where
  "typing_method_2 env input_element working_selector question =
     (case fill env input_element question of
        Inl e2 \<Rightarrow>
          (let (r, tr) = typing_method_3 env working_selector question
           in (r, (Fill input_element question, False) # tr))
      | Inr _ \<Rightarrow> (True, [(Fill input_element question, True)]))"

definition type_question :: "env \<Rightarrow> element \<Rightarrow> selector \<Rightarrow> string \<Rightarrow> bool \<times> step list" where
  "type_question env input_element working_selector question =
     (case click env input_element of
        Inl e \<Rightarrow>
          (let (r, tr) = typing_method_2 env input_element working_selector question
           in (r, (Click input_element, False) # tr))
      | Inr _ \<Rightarrow>
          (case type_text env input_element question 50 of
             Inl e \<Rightarrow>
               (let (r, tr) = typing_method_2 env input_element working_selector question
                in (r, [(Click input_element, True), (Sleep 500, True),
                        (TypeText input_element question 50, False)] @ tr))
           | Inr _ \<Rightarrow>
               (True, [(Click input_element, True), (Sleep 500, True),
                       (TypeText input_element question 50, True)])))"

subsection \<open>Waiting for the answer (lines 176 to 215)\<close>

record poll_state =
  answer :: "string option"
  stable_count :: nat
  last_text :: "string option"
  found_selectors :: "selector set"

definition initial_poll_state :: poll_state where
  "initial_poll_state =
     \<lparr>answer = None, stable_count = 0, last_text = None, found_selectors = {}\<rparr>"

text \<open>Line 196: \<^verbatim>\<open>if text and text != question and len(text) > 10\<close>.\<close>

definition accepted :: "string \<Rightarrow> string \<Rightarrow> bool" where
  "accepted question text \<longleftrightarrow> text \<noteq> [] \<and> text \<noteq> question \<and> length text > 10"

text \<open>
  The body of the \<^verbatim>\<open>for selector in GEMINI_RESPONSE_SELECTORS\<close> loop (lines 185 to 210).
  The flag returned with the state is \<open>True\<close> when the body leaves the loop by
  \<^verbatim>\<open>break\<close> (line 202).
\<close>

definition poll_selector ::
  "env \<Rightarrow> string \<Rightarrow> nat \<Rightarrow> selector \<Rightarrow> poll_state \<Rightarrow> (poll_state \<times> bool) \<times> step list" where
  "poll_selector env question tick sel st =
     (case query_selector_all env tick sel of
        Inl e \<Rightarrow> ((st, False), [(QuerySelectorAll sel, False)])
      | Inr elements \<Rightarrow>
          (let st1 = (if elements \<noteq> [] \<and> sel \<notin> found_selectors st
                      then st\<lparr>found_selectors := insert sel (found_selectors st)\<rparr> else st)
           in if elements \<noteq> [] then
                (let latest = last elements
                 in case inner_text env tick latest of
                      Inl e \<Rightarrow>
                        ((st1, False), [(QuerySelectorAll sel, True), (InnerText latest, False)])
                    | Inr raw \<Rightarrow>
                        (let text = strip raw;
                             tr = [(QuerySelectorAll sel, True), (InnerText latest, True)]
                         in if accepted question text then
                              (if Some text = last_text st1 then
                                 (let st2 = st1\<lparr>stable_count := stable_count st1 + 1\<rparr>
                                  in if stable_count st2 \<ge> 3
                                     then ((st2\<lparr>answer := Some text\<rparr>, True), tr)
                                     else ((st2, False), tr))
                               else ((st1\<lparr>stable_count := 0, last_text := Some text\<rparr>, False), tr))
                            else ((st1, False), tr)))
              else ((st1, False), [(QuerySelectorAll sel, True)])))"

fun poll_selectors ::
  "env \<Rightarrow> string \<Rightarrow> nat \<Rightarrow> selector list \<Rightarrow> poll_state \<Rightarrow> poll_state \<times> step list" where
  "poll_selectors env question tick [] st = (st, [])"
| "poll_selectors env question tick (sel # sels) st =
     (case poll_selector env question tick sel st of
        ((st', True), tr) \<Rightarrow> (st', tr)
      | ((st', False), tr) \<Rightarrow>
          (let (st'', tr') = poll_selectors env question tick sels st'
           in (st'', tr @ tr')))"

text \<open>
  \<^verbatim>\<open>deadline = time.time() + 120\<close>; \<^verbatim>\<open>while time.time() < deadline: ...; if answer: break;
  time.sleep(1)\<close>. Poll \<open>tick\<close> starts \<open>1000 * tick + lag env tick\<close> milliseconds after the
  deadline was set.
\<close>

function poll_loop :: "env \<Rightarrow> string \<Rightarrow> nat \<Rightarrow> poll_state \<Rightarrow> poll_state \<times> step list" where
  "poll_loop env question tick st =
     (if 1000 * tick + lag env tick < 120000 then
        (let (st', tr) = poll_selectors env question tick GEMINI_RESPONSE_SELECTORS st
         in if truthy_str (answer st') then (st', tr)
            else (let (st'', tr') = poll_loop env question (Suc tick) st'
                  in (st'', tr @ (Sleep 1000, True) # tr')))
      else (st, []))"
  by pat_completeness auto
termination
  by (relation "measure (\<lambda>(env, question, tick, st). 120 - tick)") auto

declare poll_loop.simps [simp del]

section \<open>browser\_utils.py: BrowserFactory\<close>

text \<open>
  \<^verbatim>\<open>_inject_cookies\<close> (lines 106 to 116). The read of \<^verbatim>\<open>state.json\<close> and
  \<^verbatim>\<open>context.add_cookies\<close> sit in one \<^verbatim>\<open>try\<close> (lines 109 to 116) whose handler only
  prints, so nothing raised there leaves \<^verbatim>\<open>_inject_cookies\<close>; \<open>load_state\<close> is \<open>None\<close>
  when the file has no \<^verbatim>\<open>cookies\<close> key. The test \<^verbatim>\<open>STATE_FILE.exists()\<close> of line 108
  stands outside the \<^verbatim>\<open>try\<close>: when it raises (\<^verbatim>\<open>Path.exists\<close> of Python 3.11 re-raises
  a \<^verbatim>\<open>PermissionError\<close>, as for a directory that may not be searched), the exception
  leaves \<^verbatim>\<open>_inject_cookies\<close>.
\<close>

definition inject_cookies :: "env \<Rightarrow> (error + unit) \<times> event list" where
  "inject_cookies env =
     (case state_file_exists env of
        Inl e \<Rightarrow> (Inl e, [Session StateFileExists False])
      | Inr state_file \<Rightarrow>
          (Inr (),
           Session StateFileExists True #
           (if state_file then
              (case load_state env of
                 Inl e \<Rightarrow> [Session LoadState False]
               | Inr None \<Rightarrow> [Session LoadState True]
               | Inr (Some cookies) \<Rightarrow>
                   (if length cookies > 0
                    then [Session LoadState True,
                          Session (AddCookies cookies) (succeeded (add_cookies env cookies))]
                    else [Session LoadState True]))
            else [])))"

text \<open>
  \<^verbatim>\<open>launch_persistent_context\<close> (lines 69 to 103): the launch arguments other than
  \<open>headless\<close> are constants of \<^verbatim>\<open>config.py\<close> and of the platform. The context is
  returned (line 103) only after \<^verbatim>\<open>_inject_cookies\<close> (line 101) has returned: an
  exception of \<^verbatim>\<open>_inject_cookies\<close> leaves the factory with the browser launched and no
  context handed to the caller.
\<close>

definition launch_persistent_context :: "env \<Rightarrow> bool \<Rightarrow> (error + unit) \<times> event list" where
  "launch_persistent_context env headless =
     (case chromium_launch env headless of
        Inl e \<Rightarrow> (Inl e, [Session (ChromiumLaunch headless) False])
      | Inr context \<Rightarrow>
          (case inject_cookies env of
             (Inl e, tr) \<Rightarrow> (Inl e, Session (ChromiumLaunch headless) True # tr)
           | (Inr _, tr) \<Rightarrow> (Inr context, Session (ChromiumLaunch headless) True # tr)))"

section \<open>ask\_gemini (lines 45 to 254)\<close>

text \<open>
  Lines 78 to 228, from \<^verbatim>\<open>context.new_page()\<close> to the last \<^verbatim>\<open>return\<close> of the
  \<^verbatim>\<open>try\<close> block. \<open>Inl\<close> is an exception that reaches the handler of line 230; \<open>Inr\<close> is
  the value returned.
\<close>

definition ask_session :: "env \<Rightarrow> string \<Rightarrow> bool \<Rightarrow> (error + string option) \<times> step list" where
  "ask_session env question headless =
     (case new_page env of
        Inl e \<Rightarrow> (Inl e, [(NewPage, False)])
      | Inr _ \<Rightarrow>
     (case goto env of
        Inl e \<Rightarrow> (Inl e, [(NewPage, True), (Goto, False)])
      | Inr _ \<Rightarrow>
     (let tr0 = [(NewPage, True), (Goto, True), (Sleep 3000, True)];
          (input_element, tr1) = find_input env 10000 GEMINI_INPUT_SELECTORS
      in case input_element of
           None \<Rightarrow>
             (Inr None, tr0 @ tr1 @ (if \<not> headless then [(Sleep 60000, True)] else []))
         | Some el \<Rightarrow>
     (let (working_selector, tr2) = find_working_selector env GEMINI_INPUT_SELECTORS
      in case working_selector of
           None \<Rightarrow> (Inr None, tr0 @ tr1 @ tr2)
         | Some ws \<Rightarrow>
     (let (typed, tr3) = type_question env el ws question
      in if \<not> typed then (Inr None, tr0 @ tr1 @ tr2 @ tr3)
         else
     (case press_enter env of
        Inl e \<Rightarrow> (Inl e, tr0 @ tr1 @ tr2 @ tr3 @ [(PressEnter, False)])
      | Inr _ \<Rightarrow>
     (let (st, tr4) = poll_loop env question 0 initial_poll_state;
          tr = tr0 @ tr1 @ tr2 @ tr3 @ (PressEnter, True) # tr4
      in if \<not> truthy_str (answer st)
         then (Inr None, tr @ (if \<not> headless then [(Sleep 30000, True)] else []))
         else (Inr (answer st), tr))))))))"

text \<open>The handler of line 230 and the \<^verbatim>\<open>finally\<close> block of line 242.\<close>

definition debug_pause :: "bool \<Rightarrow> event list" where
  "debug_pause headless = (if \<not> headless then [Step (Sleep 30000) True] else [])"

definition cleanup :: "env \<Rightarrow> bool \<Rightarrow> bool \<Rightarrow> event list" where
  "cleanup env context playwright =
     (if context then [Session ContextClose (succeeded (context_close env))] else []) @
     (if playwright then [Session PlaywrightStop (succeeded (playwright_stop env))] else [])"

definition step_event :: "step \<Rightarrow> event" where
  "step_event s = Step (fst s) (snd s)"

definition ask_gemini :: "env \<Rightarrow> string \<Rightarrow> bool \<Rightarrow> string option \<times> event list" where
  "ask_gemini env question headless =
     (if \<not> is_authenticated env then (None, [])
      else
        (case start_playwright env of
           Inl e \<Rightarrow>
             (None, Session StartPlaywright False # debug_pause headless @ cleanup env False False)
         | Inr _ \<Rightarrow>
        (case launch_persistent_context env headless of
           (Inl e, tr1) \<Rightarrow>
             (None, Session StartPlaywright True # tr1 @ debug_pause headless @
                    cleanup env False True)
         | (Inr _, tr1) \<Rightarrow>
        (case ask_session env question headless of
           (Inl e, tr2) \<Rightarrow>
             (None, Session StartPlaywright True # tr1 @ map step_event tr2 @
                    debug_pause headless @ cleanup env True True)
         | (Inr r, tr2) \<Rightarrow>
             (r, Session StartPlaywright True # tr1 @ map step_event tr2 @
                 cleanup env True True)))))"

text \<open>
  \<^verbatim>\<open>main\<close> (lines 257 to 282): \<open>headless = not args.show_browser\<close>; the value returned is
  the exit code of the process (\<^verbatim>\<open>sys.exit(main())\<close>).
\<close>

definition ask_gemini_main :: "env \<Rightarrow> string \<Rightarrow> bool \<Rightarrow> nat \<times> event list" where
  "ask_gemini_main env question show_browser =
     (let (answer, tr) = ask_gemini env question (\<not> show_browser)
      in (if truthy_str answer then 0 else 1, tr))"

section \<open>generate\_image.py\<close>

definition IMAGE_BUTTON_SELECTORS :: "selector list" where
  "IMAGE_BUTTON_SELECTORS =
    [''button[aria-label*='Image']'',
     ''button[aria-label*='image']'',
     ''[data-test-id*='image']'',
     ''button:has-text('Image')'']"

definition IMAGE_RESULT_SELECTORS :: "selector list" where
  "IMAGE_RESULT_SELECTORS =
    [''generated-image img.image'',
     ''single-image img[src*='googleusercontent.com']'',
     ''generated-image img'']"

definition input_selectors :: "selector list" where
  "input_selectors = [''rich-textarea'', ''textarea'', ''div[contenteditable='true']'']"

definition actual_input_selectors :: "selector list" where
  "actual_input_selectors =
    [''rich-textarea textarea'',
     ''rich-textarea [contenteditable='' @ [CHR 0x22] @ ''true'' @ [CHR 0x22] @ '']'',
     ''textarea'',
     ''[contenteditable='' @ [CHR 0x22] @ ''true'' @ [CHR 0x22] @ '']'']"

definition download_button_selector :: selector where
  "download_button_selector =
     ''button[data-test-id='' @ [CHR 0x22] @ ''download-generated-image-button'' @
     [CHR 0x22] @ '']''"

subsection \<open>The Image button (lines 86 to 100)\<close>

text \<open>The click is inside the \<^verbatim>\<open>try\<close>: a button whose click raises is passed over.\<close>

fun click_image_button :: "env \<Rightarrow> selector list \<Rightarrow> bool \<times> step list" where
  "click_image_button env [] = (False, [])"
| "click_image_button env (sel # sels) =
     (case wait_for_selector env sel 5000 of
        Inl e \<Rightarrow>
          (let (r, tr) = click_image_button env sels
           in (r, (WaitForSelector sel 5000, False) # tr))
      | Inr None \<Rightarrow>
          (let (r, tr) = click_image_button env sels
           in (r, (WaitForSelector sel 5000, True) # tr))
      | Inr (Some button) \<Rightarrow>
          (case click env button of
             Inl e \<Rightarrow>
               (let (r, tr) = click_image_button env sels
                in (r, (WaitForSelector sel 5000, True) # (Click button, False) # tr))
           | Inr _ \<Rightarrow>
               (True, [(WaitForSelector sel 5000, True), (Click button, True),
                       (Sleep 1000, True)])))"

subsection \<open>Typing the prompt (lines 132 to 172)\<close>

text \<open>Lines 143 to 150: the element that takes the text, by \<^verbatim>\<open>page.query_selector\<close>.\<close>

fun find_actual_input :: "env \<Rightarrow> selector list \<Rightarrow> element option \<times> step list" where
  "find_actual_input env [] = (None, [])"
| "find_actual_input env (sel # sels) =
     (case query_selector env sel of
        Inl e \<Rightarrow>
          (let (r, tr) = find_actual_input env sels
           in (r, (QuerySelector sel, False) # tr))
      | Inr None \<Rightarrow>
          (let (r, tr) = find_actual_input env sels
           in (r, (QuerySelector sel, True) # tr))
      | Inr (Some el) \<Rightarrow> (Some el, [(QuerySelector sel, True)]))"

text \<open>
  One \<^verbatim>\<open>try\<close> around the whole block: any exception is "typing failed" and
  \<^verbatim>\<open>generate_image\<close> returns \<^verbatim>\<open>None\<close> (the result \<open>False\<close> here).
\<close>

definition type_prompt :: "env \<Rightarrow> element \<Rightarrow> string \<Rightarrow> bool \<Rightarrow> bool \<times> step list" where
  "type_prompt env input_element prompt debug =
     (case click env input_element of
        Inl e \<Rightarrow> (False, [(Click input_element, False)])
      | Inr _ \<Rightarrow>
          (let tr0 = [(Click input_element, True), (Sleep 500, True)]
           in if length prompt > 100 then
                (let (actual_input, tr1) = find_actual_input env actual_input_selectors
                 in case actual_input of
                      Some ai \<Rightarrow>
                        (case fill env ai prompt of
                           Inl e \<Rightarrow> (False, tr0 @ tr1 @ [(Fill ai prompt, False)])
                         | Inr _ \<Rightarrow>
                             (True, tr0 @ tr1 @ [(Fill ai prompt, True),
                                (Sleep (if debug then 10000 else 1000), True)]))
                    | None \<Rightarrow>
                        (case type_text env input_element prompt 10 of
                           Inl e \<Rightarrow> (False, tr0 @ tr1 @ [(TypeText input_element prompt 10, False)])
                         | Inr _ \<Rightarrow> (True, tr0 @ tr1 @ [(TypeText input_element prompt 10, True)])))
              else
                (case type_text env input_element prompt 20 of
                   Inl e \<Rightarrow> (False, tr0 @ [(TypeText input_element prompt 20, False)])
                 | Inr _ \<Rightarrow> (True, tr0 @ [(TypeText input_element prompt 20, True)]))))"

subsection \<open>Waiting for the images (lines 202 to 240)\<close>

record image_poll_state =
  images_found :: "element list"
  image_stable_count :: nat
  last_image_count :: nat

definition initial_image_poll_state :: image_poll_state where
  "initial_image_poll_state =
     \<lparr>images_found = [], image_stable_count = 0, last_image_count = 0\<rparr>"

text \<open>\<^verbatim>\<open>'googleusercontent.com' in src\<close>.\<close>

fun contains :: "string \<Rightarrow> string \<Rightarrow> bool" where
  "contains needle [] = (needle = [])"
| "contains needle (c # cs) =
     (take (length needle) (c # cs) = needle \<or> contains needle cs)"

definition src_loaded :: "string option \<Rightarrow> bool" where
  "src_loaded src =
     (case src of None \<Rightarrow> False
      | Some s \<Rightarrow> s \<noteq> [] \<and> contains ''googleusercontent.com'' s)"

text \<open>Lines 213 to 218; an exception of \<^verbatim>\<open>get_attribute\<close> leaves the loop.\<close>

fun loaded_images_of ::
  "env \<Rightarrow> nat \<Rightarrow> element list \<Rightarrow> (error + element list) \<times> step list" where
  "loaded_images_of env tick [] = (Inr [], [])"
| "loaded_images_of env tick (img # imgs) =
     (case get_attribute_src env tick img of
        Inl e \<Rightarrow> (Inl e, [(GetAttribute img, False)])
      | Inr src \<Rightarrow>
          (case loaded_images_of env tick imgs of
             (Inl e, tr) \<Rightarrow> (Inl e, (GetAttribute img, True) # tr)
           | (Inr rest, tr) \<Rightarrow>
               (Inr (if src_loaded src then img # rest else rest),
                (GetAttribute img, True) # tr)))"

definition poll_image_selector ::
  "env \<Rightarrow> nat \<Rightarrow> selector \<Rightarrow> image_poll_state \<Rightarrow> (image_poll_state \<times> bool) \<times> step list" where
  "poll_image_selector env tick sel st =
     (case query_selector_all env tick sel of
        Inl e \<Rightarrow> ((st, False), [(QuerySelectorAll sel, False)])
      | Inr img_elements \<Rightarrow>
          (if img_elements \<noteq> [] then
             (case loaded_images_of env tick img_elements of
                (Inl e, tr) \<Rightarrow> ((st, False), (QuerySelectorAll sel, True) # tr)
              | (Inr loaded_images, tr) \<Rightarrow>
                  (let tr' = (QuerySelectorAll sel, True) # tr;
                       loaded_count = length loaded_images
                   in if loaded_images \<noteq> [] then
                        (if loaded_count = last_image_count st \<and> loaded_count > 0 then
                           (let st2 = st\<lparr>image_stable_count := image_stable_count st + 1\<rparr>
                            in if image_stable_count st2 \<ge> 3
                               then ((st2\<lparr>images_found := loaded_images\<rparr>, True), tr')
                               else ((st2, False), tr'))
                         else ((st\<lparr>image_stable_count := 0,
                                    last_image_count := loaded_count\<rparr>, False), tr'))
                      else ((st, False), tr')))
           else ((st, False), [(QuerySelectorAll sel, True)])))"

fun poll_image_selectors ::
  "env \<Rightarrow> nat \<Rightarrow> selector list \<Rightarrow> image_poll_state \<Rightarrow> image_poll_state \<times> step list" where
  "poll_image_selectors env tick [] st = (st, [])"
| "poll_image_selectors env tick (sel # sels) st =
     (case poll_image_selector env tick sel st of
        ((st', True), tr) \<Rightarrow> (st', tr)
      | ((st', False), tr) \<Rightarrow>
          (let (st'', tr') = poll_image_selectors env tick sels st'
           in (st'', tr @ tr')))"

text \<open>\<^verbatim>\<open>for attempt in range(30): ...; if images_found: break; time.sleep(1)\<close>.\<close>

function poll_images :: "env \<Rightarrow> nat \<Rightarrow> image_poll_state \<Rightarrow> image_poll_state \<times> step list" where
  "poll_images env attempt st =
     (if attempt < 30 then
        (let (st', tr) = poll_image_selectors env attempt IMAGE_RESULT_SELECTORS st
         in if images_found st' \<noteq> [] then (st', tr)
            else (let (st'', tr') = poll_images env (Suc attempt) st'
                  in (st'', tr @ (Sleep 1000, True) # tr')))
      else (st, []))"
  by pat_completeness auto
termination
  by (relation "measure (\<lambda>(env, attempt, st). 30 - attempt)") auto

declare poll_images.simps [simp del]

subsection \<open>Saving the images (lines 253 to 319)\<close>

text \<open>
  Lines 272 to 277 and lines 304 to 309: the screenshot of \<^verbatim>\<open>img.image\<close> inside the
  container. The path is appended to \<^verbatim>\<open>saved_paths\<close> after the screenshot returned.
\<close>

definition screenshot_image ::
  "env \<Rightarrow> nat \<Rightarrow> string \<Rightarrow> nat \<Rightarrow> element \<Rightarrow> (error + saved_path option) \<times> step list" where
  "screenshot_image env attempt output_dir i gen_img =
     (case element_query_selector env attempt gen_img ''img.image'' of
        Inl e \<Rightarrow> (Inl e, [(ElementQuerySelector gen_img ''img.image'', False)])
      | Inr None \<Rightarrow> (Inr None, [(ElementQuerySelector gen_img ''img.image'', True)])
      | Inr (Some img_elem) \<Rightarrow>
          (let screenshot_path = SavedPath output_dir (i + 1) (time_time env attempt i) ''.png''
           in case screenshot env attempt img_elem screenshot_path of
                Inl e \<Rightarrow>
                  (Inl e, [(ElementQuerySelector gen_img ''img.image'', True),
                           (Screenshot img_elem screenshot_path, False)])
              | Inr _ \<Rightarrow>
                  (Inr (Some screenshot_path),
                   [(ElementQuerySelector gen_img ''img.image'', True),
                    (Screenshot img_elem screenshot_path, True)])))"

text \<open>The \<^verbatim>\<open>try\<close> block of the loop body (lines 263 to 298).\<close>

definition try_download ::
  "env \<Rightarrow> string \<Rightarrow> nat \<Rightarrow> element \<Rightarrow> (error + saved_path option) \<times> step list" where
  "try_download env output_dir i gen_img =
     (case element_query_selector env 0 gen_img download_button_selector of
        Inl e \<Rightarrow> (Inl e, [(ElementQuerySelector gen_img download_button_selector, False)])
      | Inr None \<Rightarrow>
          (let (r, tr) = screenshot_image env 0 output_dir i gen_img
           in (r, (ElementQuerySelector gen_img download_button_selector, True) # tr))
      | Inr (Some download_button) \<Rightarrow>
          (let tr0 = [(ElementQuerySelector gen_img download_button_selector, True)]
           in case click_download env download_button of
                Inl e \<Rightarrow> (Inl e, tr0 @ [(ClickDownload download_button, False)])
              | Inr name_suffix \<Rightarrow>
                  (let file_ext = (if name_suffix \<noteq> [] then name_suffix else ''.png'');
                       filename = SavedPath output_dir (i + 1) (time_time env 0 i) file_ext
                   in case save_as env filename of
                        Inl e \<Rightarrow>
                          (Inl e, tr0 @ [(ClickDownload download_button, True),
                                         (SaveAs filename, False)])
                      | Inr _ \<Rightarrow>
                          (Inr (Some filename),
                           tr0 @ [(ClickDownload download_button, True),
                                  (SaveAs filename, True)]))))"

text \<open>
  The loop body with its handler (lines 300 to 312): the paths that this container adds to
  \<^verbatim>\<open>saved_paths\<close>, none or one.
\<close>

definition retrieve_item ::
  "env \<Rightarrow> string \<Rightarrow> nat \<Rightarrow> element \<Rightarrow> saved_path list \<times> step list" where
  "retrieve_item env output_dir i gen_img =
     (case try_download env output_dir i gen_img of
        (Inr p, tr) \<Rightarrow> (case p of None \<Rightarrow> [] | Some f \<Rightarrow> [f], tr)
      | (Inl e, tr) \<Rightarrow>
          (case screenshot_image env 1 output_dir i gen_img of
             (Inl fallback_error, tr') \<Rightarrow> ([], tr @ tr')
           | (Inr p, tr') \<Rightarrow> (case p of None \<Rightarrow> [] | Some f \<Rightarrow> [f], tr @ tr')))"

text \<open>
  \<^verbatim>\<open>for i, gen_img in enumerate(generated_images)\<close>: the paths appended to
  \<^verbatim>\<open>saved_paths\<close> from index \<open>i\<close> on, in order.
\<close>

fun retrieve :: "env \<Rightarrow> string \<Rightarrow> nat \<Rightarrow> element list \<Rightarrow> saved_path list \<times> step list" where
  "retrieve env output_dir i [] = ([], [])"
| "retrieve env output_dir i (gen_img # rest) =
     (let (ps, tr) = retrieve_item env output_dir i gen_img;
          (ps', tr') = retrieve env output_dir (Suc i) rest
      in (ps @ ps', tr @ tr'))"

text \<open>Lines 253 to 319, from \<^verbatim>\<open>output_path.mkdir\<close> to the \<^verbatim>\<open>return\<close>.\<close>

definition download_images ::
  "env \<Rightarrow> string \<Rightarrow> (error + saved_path list option) \<times> step list" where
  "download_images env output_dir =
     (case mkdir env of
        Inl e \<Rightarrow> (Inl e, [(Mkdir, False)])
      | Inr _ \<Rightarrow>
          (case query_generated_images env of
             Inl e \<Rightarrow> (Inl e, [(Mkdir, True), (QuerySelectorAll ''generated-image'', False)])
           | Inr generated_images \<Rightarrow>
               (let (saved_paths, tr) = retrieve env output_dir 0 generated_images;
                    tr' = (Mkdir, True) # (QuerySelectorAll ''generated-image'', True) # tr
                in if saved_paths \<noteq> [] then (Inr (Some saved_paths), tr')
                   else (Inr None, tr'))))"

section \<open>generate\_image (lines 41 to 345)\<close>

text \<open>Lines 75 to 319, the \<^verbatim>\<open>try\<close> block after the launch of the context.\<close>

definition image_session ::
  "env \<Rightarrow> string \<Rightarrow> string \<Rightarrow> bool \<Rightarrow> bool \<Rightarrow> (error + saved_path list option) \<times> step list" where
  "image_session env prompt output_dir headless debug =
     (case new_page env of
        Inl e \<Rightarrow> (Inl e, [(NewPage, False)])
      | Inr _ \<Rightarrow>
     (case goto env of
        Inl e \<Rightarrow> (Inl e, [(NewPage, True), (Goto, False)])
      | Inr _ \<Rightarrow>
     (let tr0 = [(NewPage, True), (Goto, True), (Sleep 5000, True)];
          (image_button_found, tr1) = click_image_button env IMAGE_BUTTON_SELECTORS;
          (input_element, tr2) = find_input env 10000 input_selectors
      in case input_element of
           None \<Rightarrow> (Inr None, tr0 @ tr1 @ tr2)
         | Some el \<Rightarrow>
     (let (typed, tr3) = type_prompt env el prompt debug
      in if \<not> typed then (Inr None, tr0 @ tr1 @ tr2 @ tr3)
         else
     (case press_enter env of
        Inl e \<Rightarrow> (Inl e, tr0 @ tr1 @ tr2 @ tr3 @ [(PressEnter, False)])
      | Inr _ \<Rightarrow>
     (case wait_for_selector env ''generated-image'' 300000 of
        Inl e \<Rightarrow>
          (Inr None, tr0 @ tr1 @ tr2 @ tr3 @
             [(PressEnter, True), (WaitForSelector ''generated-image'' 300000, False)] @
             (if \<not> headless then [(Sleep 60000, True)] else []))
      | Inr _ \<Rightarrow>
     (let (st, tr4) = poll_images env 0 initial_image_poll_state;
          tr = tr0 @ tr1 @ tr2 @ tr3 @
               [(PressEnter, True), (WaitForSelector ''generated-image'' 300000, True),
                (Sleep 2000, True), (Sleep 5000, True)] @ tr4
      in if images_found st = []
         then (Inr None, tr @ (if \<not> headless then [(Sleep 60000, True)] else []))
         else (let (r, tr5) = download_images env output_dir in (r, tr @ tr5)))))))))"

definition generate_image ::
  "env \<Rightarrow> string \<Rightarrow> string \<Rightarrow> bool \<Rightarrow> bool \<Rightarrow> saved_path list option \<times> event list" where
  "generate_image env prompt output_dir headless debug =
     (if \<not> is_authenticated env then (None, [])
      else
        (case start_playwright env of
           Inl e \<Rightarrow>
             (None, Session StartPlaywright False # debug_pause headless @ cleanup env False False)
         | Inr _ \<Rightarrow>
        (case launch_persistent_context env headless of
           (Inl e, tr1) \<Rightarrow>
             (None, Session StartPlaywright True # tr1 @ debug_pause headless @
                    cleanup env False True)
         | (Inr _, tr1) \<Rightarrow>
        (case image_session env prompt output_dir headless debug of
           (Inl e, tr2) \<Rightarrow>
             (None, Session StartPlaywright True # tr1 @ map step_event tr2 @
                    debug_pause headless @ cleanup env True True)
         | (Inr r, tr2) \<Rightarrow>
             (r, Session StartPlaywright True # tr1 @ map step_event tr2 @
                 cleanup env True True)))))"

text \<open>\<^verbatim>\<open>main\<close> (lines 348 to 377).\<close>

definition generate_image_main ::
  "env \<Rightarrow> string \<Rightarrow> string \<Rightarrow> bool \<Rightarrow> bool \<Rightarrow> nat \<times> event list" where
  "generate_image_main env prompt output headless debug =
     (let (saved_paths, tr) = generate_image env prompt output headless debug
      in (if truthy_list saved_paths then 0 else 1, tr))"

section \<open>Observations on runs\<close>

subsection \<open>What a response selector samples\<close>

text \<open>
  The text that one selector hands to the stability check at one poll, if any: the stripped
  inner text of the last element, when the query and the read both return and line 196
  accepts the text.
\<close>

definition sample :: "env \<Rightarrow> string \<Rightarrow> nat \<Rightarrow> selector \<Rightarrow> string option" where
  "sample env question tick sel =
     (case query_selector_all env tick sel of
        Inl e \<Rightarrow> None
      | Inr elements \<Rightarrow>
          (if elements = [] then None
           else (case inner_text env tick (last elements) of
                   Inl e \<Rightarrow> None
                 | Inr raw \<Rightarrow>
                     (if accepted question (strip raw) then Some (strip raw) else None))))"

text \<open>
  The three variables of the stability check (\<open>answer\<close>, \<open>stable_count\<close>, \<open>last_text\<close>)
  and what one sample does to them; the flag is the \<^verbatim>\<open>break\<close>.
\<close>

type_synonym window = "string option \<times> nat \<times> string option"

definition window_of :: "poll_state \<Rightarrow> window" where
  "window_of st = (answer st, stable_count st, last_text st)"

fun observe :: "string option \<Rightarrow> window \<Rightarrow> window \<times> bool" where
  "observe None w = (w, False)"
| "observe (Some t) (a, c, l) =
     (if l = Some t
      then (if c + 1 \<ge> 3 then ((Some t, c + 1, l), True) else ((a, c + 1, l), False))
      else ((a, 0, Some t), False))"

fun observe_all :: "string option list \<Rightarrow> window \<Rightarrow> window" where
  "observe_all [] w = w"
| "observe_all (x # xs) w =
     (case observe x w of (w', True) \<Rightarrow> w' | (w', False) \<Rightarrow> observe_all xs w')"

fun is_sleep :: "step \<Rightarrow> bool" where
  "is_sleep (Sleep n, ok) = True"
| "is_sleep s = False"

definition no_sleep :: "step list \<Rightarrow> bool" where
  "no_sleep tr = (filter is_sleep tr = [])"

text \<open>The number of one-second sleeps of the polling loop in a trace.\<close>

definition poll_sleeps :: "step list \<Rightarrow> nat" where
  "poll_sleeps tr = length (filter (\<lambda>s. s = (Sleep 1000, True)) tr)"

text \<open>Only the selector \<open>s0\<close> ever yields an accepted sample.\<close>

definition single_source :: "env \<Rightarrow> string \<Rightarrow> selector \<Rightarrow> bool" where
  "single_source env question s0 \<longleftrightarrow>
     s0 \<in> set GEMINI_RESPONSE_SELECTORS \<and>
     (\<forall>k. \<forall>sel \<in> set GEMINI_RESPONSE_SELECTORS. sel \<noteq> s0 \<longrightarrow> sample env question k sel = None)"

text \<open>The accepted sample seen last before poll \<open>k\<close>, in a sequence of optional samples.\<close>

fun last_seen :: "(nat \<Rightarrow> string option) \<Rightarrow> nat \<Rightarrow> string option" where
  "last_seen f 0 = None"
| "last_seen f (Suc k) = (case f k of Some t \<Rightarrow> Some t | None \<Rightarrow> last_seen f k)"

text \<open>
  How many times in a row, before poll \<open>k\<close>, an accepted sample has been equal to the
  accepted sample before it.
\<close>

fun repeats :: "(nat \<Rightarrow> string option) \<Rightarrow> nat \<Rightarrow> nat" where
  "repeats f 0 = 0"
| "repeats f (Suc k) =
     (case f k of
        None \<Rightarrow> repeats f k
      | Some t \<Rightarrow> (if last_seen f k = Some t then repeats f k + 1 else 0))"

text \<open>
  The run reaches the polling loop: authenticated, session launched, page opened, input
  field found, question typed and submitted.
\<close>

definition submits :: "env \<Rightarrow> string \<Rightarrow> bool \<Rightarrow> bool" where
  "submits env question headless \<longleftrightarrow>
     is_authenticated env \<and> succeeded (start_playwright env) \<and>
     succeeded (fst (launch_persistent_context env headless)) \<and>
     succeeded (new_page env) \<and> succeeded (goto env) \<and>
     (case fst (find_input env 10000 GEMINI_INPUT_SELECTORS) of
        None \<Rightarrow> False
      | Some el \<Rightarrow>
          (case fst (find_working_selector env GEMINI_INPUT_SELECTORS) of
             None \<Rightarrow> False
           | Some ws \<Rightarrow> fst (type_question env el ws question))) \<and>
     succeeded (press_enter env)"

subsection \<open>Which typing method a call belongs to\<close>

fun typing_method :: "action \<Rightarrow> nat option" where
  "typing_method (Click el) = Some 1"
| "typing_method (TypeText el text delay) = Some 1"
| "typing_method (Fill el text) = Some 2"
| "typing_method (Evaluate sel text) = Some 3"
| "typing_method a = None"

text \<open>The methods a trace tries, in the order it tries them.\<close>

definition methods_tried :: "step list \<Rightarrow> nat list" where
  "methods_tried tr = remdups_adj (List.map_filter (\<lambda>s. typing_method (fst s)) tr)"

subsection \<open>Resolving a selector list\<close>

text \<open>
  A candidate matches when \<^verbatim>\<open>wait_for_selector\<close> returns an element within the timeout;
  a candidate that raises, or returns \<^verbatim>\<open>None\<close>, does not.
\<close>

definition visible_match :: "env \<Rightarrow> nat \<Rightarrow> selector \<Rightarrow> bool" where
  "visible_match env timeout sel =
     (case wait_for_selector env sel timeout of Inr (Some el) \<Rightarrow> True | _ \<Rightarrow> False)"

definition matched_element :: "env \<Rightarrow> nat \<Rightarrow> selector \<Rightarrow> element option" where
  "matched_element env timeout sel =
     (case wait_for_selector env sel timeout of Inr r \<Rightarrow> r | Inl e \<Rightarrow> None)"

definition attempt :: "env \<Rightarrow> nat \<Rightarrow> selector \<Rightarrow> step" where
  "attempt env timeout sel =
     (WaitForSelector sel timeout, succeeded (wait_for_selector env sel timeout))"

text \<open>
  For the Image button, a candidate matches when the wait returns a button and the click on
  it returns.
\<close>

definition clicked_match :: "env \<Rightarrow> selector \<Rightarrow> bool" where
  "clicked_match env sel =
     (case wait_for_selector env sel 5000 of
        Inr (Some button) \<Rightarrow> succeeded (click env button) | _ \<Rightarrow> False)"

text \<open>The selector that a step of a trace waits for, if it is a wait.\<close>

fun waited :: "step \<Rightarrow> selector option" where
  "waited (WaitForSelector sel timeout, ok) = Some sel"
| "waited s = None"

subsection \<open>Acquiring and releasing the session\<close>

fun launched :: "event \<Rightarrow> bool" where
  "launched (Session (ChromiumLaunch headless) ok) = ok"
| "launched e = False"

fun launch_call :: "event \<Rightarrow> bool" where
  "launch_call (Session (ChromiumLaunch headless) ok) = True"
| "launch_call e = False"

fun close_call :: "event \<Rightarrow> bool" where
  "close_call (Session ContextClose ok) = True"
| "close_call e = False"

fun stop_call :: "event \<Rightarrow> bool" where
  "stop_call (Session PlaywrightStop ok) = True"
| "stop_call e = False"

text \<open>The calls of a trace that acquire or release the session, in the order made.\<close>

fun session_call :: "event \<Rightarrow> bool" where
  "session_call (Session c ok) = True"
| "session_call (Step a ok) = False"

definition session_calls :: "event list \<Rightarrow> event list" where
  "session_calls tr = filter session_call tr"

text \<open>
  The trace of a run that was handed the context releases it: its session calls are the
  start of the driver, the calls of the factory, \<^verbatim>\<open>context.close()\<close> and
  \<^verbatim>\<open>playwright.stop()\<close>, in this order, and no other; the close and the stop are the last
  two calls of the whole trace; one context is launched, and the close and the stop are
  each called once. The flag of the close and of the stop tells whether the call returned:
  an exception of either is swallowed (lines 242 to 254 of \<^verbatim>\<open>ask_gemini.py\<close>, 333 to 345
  of \<^verbatim>\<open>generate_image.py\<close>), so the context is closed and the driver stopped when these
  calls return.
\<close>

definition released :: "env \<Rightarrow> bool \<Rightarrow> event list \<Rightarrow> bool" where
  "released env headless tr \<longleftrightarrow>
     session_calls tr =
       Session StartPlaywright True # snd (launch_persistent_context env headless) @
       [Session ContextClose (succeeded (context_close env)),
        Session PlaywrightStop (succeeded (playwright_stop env))] \<and>
     suffix [Session ContextClose (succeeded (context_close env)),
             Session PlaywrightStop (succeeded (playwright_stop env))] tr \<and>
     filter launch_call tr = [Session (ChromiumLaunch headless) True] \<and>
     length (filter close_call tr) = 1 \<and>
     length (filter stop_call tr) = 1"

text \<open>
  The trace of a run whose launch raised: no context exists, and the driver is stopped as
  the last call.
\<close>

definition driver_released :: "env \<Rightarrow> bool \<Rightarrow> event list \<Rightarrow> bool" where
  "driver_released env headless tr \<longleftrightarrow>
     session_calls tr =
       [Session StartPlaywright True, Session (ChromiumLaunch headless) False,
        Session PlaywrightStop (succeeded (playwright_stop env))] \<and>
     suffix [Session PlaywrightStop (succeeded (playwright_stop env))] tr"

subsection \<open>Saving the images\<close>

text \<open>
  The containers that a trace works on, in order: each pass of the loop of line 262 starts
  by asking the container for its download button.
\<close>

definition container_tried :: "step \<Rightarrow> element option" where
  "container_tried s =
     (case fst s of
        ElementQuerySelector gen_img sel \<Rightarrow>
          (if sel = download_button_selector then Some gen_img else None)
      | _ \<Rightarrow> None)"

definition containers_tried :: "step list \<Rightarrow> element list" where
  "containers_tried tr = List.map_filter container_tried tr"

text \<open>What the screenshot of the handler (lines 303 to 311) saves for a container.\<close>

definition screenshot_saved :: "env \<Rightarrow> string \<Rightarrow> nat \<Rightarrow> element \<Rightarrow> saved_path list" where
  "screenshot_saved env output_dir i gen_img =
     (case fst (screenshot_image env 1 output_dir i gen_img) of
        Inr (Some p) \<Rightarrow> [p] | _ \<Rightarrow> [])"

subsection \<open>Fill and typing calls\<close>

fun fill_call :: "step \<Rightarrow> bool" where
  "fill_call (Fill el text, ok) = True"
| "fill_call s = False"

fun typing_call :: "step \<Rightarrow> bool" where
  "typing_call (TypeText el text delay, ok) = True"
| "typing_call s = False"

subsection \<open>The stability check as a run over optional samples\<close>

text \<open>
  At most \<open>n\<close> polls from poll \<open>k\<close> on, with \<open>f k\<close> the sample of poll \<open>k\<close> and
  \<open>in_time k\<close> the test of the deadline; the run stops at the first window with an answer.
\<close>

fun window_run ::
  "(nat \<Rightarrow> bool) \<Rightarrow> (nat \<Rightarrow> string option) \<Rightarrow> nat \<Rightarrow> nat \<Rightarrow> window \<Rightarrow> window" where
  "window_run in_time f k 0 w = w"
| "window_run in_time f k (Suc n) w =
     (if in_time k then
        (let w' = fst (observe (f k) w)
         in if truthy_str (fst w') then w' else window_run in_time f (Suc k) n w')
      else w)"

section \<open>Pages for the scenarios\<close>

text \<open>
  A page on which every call returns: the user is signed in, every selector of an input
  field matches element 1, no response and no image is ever there.
\<close>

definition mock_page :: env where
  "mock_page =
     \<lparr>is_authenticated = True,
      start_playwright = Inr (),
      chromium_launch = (\<lambda>headless. Inr ()),
      state_file_exists = Inr False,
      load_state = Inr None,
      add_cookies = (\<lambda>cookies. Inr ()),
      context_close = Inr (),
      playwright_stop = Inr (),
      new_page = Inr (),
      goto = Inr (),
      wait_for_selector = (\<lambda>sel timeout. Inr (Some 1)),
      query_selector = (\<lambda>sel. Inr (Some 1)),
      is_visible = (\<lambda>el. Inr True),
      click = (\<lambda>el. Inr ()),
      type_text = (\<lambda>el text delay. Inr ()),
      fill = (\<lambda>el text. Inr ()),
      evaluate = (\<lambda>sel text. Inr ()),
      press_enter = Inr (),
      lag = (\<lambda>k. 0),
      query_selector_all = (\<lambda>k sel. Inr []),
      inner_text = (\<lambda>k el. Inr []),
      get_attribute_src = (\<lambda>k el. Inr None),
      mkdir = Inr (),
      query_generated_images = Inr [],
      element_query_selector = (\<lambda>attempt el sel. Inr None),
      click_download = (\<lambda>el. Inr ''.png''),
      save_as = (\<lambda>p. Inr ()),
      screenshot = (\<lambda>attempt el p. Inr ()),
      time_time = (\<lambda>attempt i. 0)\<rparr>"

definition signed_out :: env where
  "signed_out = mock_page\<lparr>is_authenticated := False\<rparr>"

text \<open>
  A response region that only the first response selector matches; its text at poll \<open>k\<close>
  is \<open>texts k\<close>.
\<close>

definition response_region :: "(nat \<Rightarrow> string) \<Rightarrow> env" where
  "response_region texts =
     mock_page\<lparr>query_selector_all :=
                  (\<lambda>k sel. if sel = ''.model-response-text'' then Inr [2] else Inr []),
               inner_text := (\<lambda>k el. Inr (texts k))\<rparr>"

text \<open>Typing, fill and the script each work or raise as the flags say.\<close>

definition flaky_input :: "bool \<Rightarrow> bool \<Rightarrow> bool \<Rightarrow> env" where
  "flaky_input typing_ok fill_ok evaluate_ok =
     mock_page\<lparr>type_text := (\<lambda>el text delay. if typing_ok then Inr () else Inl PlaywrightError),
               fill := (\<lambda>el text. if fill_ok then Inr () else Inl PlaywrightError),
               evaluate := (\<lambda>sel text. if evaluate_ok then Inr () else Inl PlaywrightError)\<rparr>"

text \<open>
  The first input selector matches nothing, the second times out, the third and the fourth
  match elements 7 and 8.
\<close>

definition late_input :: env where
  "late_input =
     mock_page\<lparr>wait_for_selector :=
       (\<lambda>sel timeout.
          if sel = ''rich-textarea[placeholder*='Enter']'' then Inl TimeoutError
          else if sel = ''rich-textarea'' then Inr (Some 7)
          else if sel = ''.ql-editor[contenteditable='true']'' then Inr (Some 8)
          else Inr None)\<rparr>"

text \<open>
  Two Image buttons are visible, elements 4 and 5; the click on the first one raises.
\<close>

definition stubborn_button :: env where
  "stubborn_button =
     mock_page\<lparr>wait_for_selector :=
                 (\<lambda>sel timeout. if sel = ''button[aria-label*='Image']'' then Inr (Some 4)
                    else if sel = ''button[aria-label*='image']'' then Inr (Some 5)
                    else Inr None),
               click := (\<lambda>el. if el = 4 then Inl PlaywrightError else Inr ())\<rparr>"

text \<open>Navigation raises, and so does \<^verbatim>\<open>context.close()\<close>.\<close>

definition crashing_page :: env where
  "crashing_page =
     mock_page\<lparr>goto := Inl PlaywrightError, context_close := Inl PlaywrightError\<rparr>"

text \<open>The driver does not start; the browser does not launch.\<close>

definition no_driver :: env where
  "no_driver = mock_page\<lparr>start_playwright := Inl PlaywrightError\<rparr>"

definition no_browser :: env where
  "no_browser = mock_page\<lparr>chromium_launch := (\<lambda>headless. Inl PlaywrightError)\<rparr>"

text \<open>
  The browser launches, and \<^verbatim>\<open>STATE_FILE.exists()\<close> raises: the directory of
  \<^verbatim>\<open>state.json\<close> may not be searched.
\<close>

definition locked_state :: env where
  "locked_state = mock_page\<lparr>state_file_exists := Inl OSError\<rparr>"

text \<open>A saved state with one cookie, on a page that has no input field.\<close>

definition blank_page :: env where
  "blank_page =
     mock_page\<lparr>state_file_exists := Inr True,
               load_state := Inr (Some [''SID'']),
               wait_for_selector := (\<lambda>sel timeout. Inr None),
               query_selector := (\<lambda>sel. Inr None)\<rparr>"

text \<open>A page that shows the prompt itself, and nothing else, in the response region.\<close>

definition echo_page :: "string \<Rightarrow> env" where
  "echo_page question = response_region (\<lambda>k. question)"

text \<open>
  Three generated images, the containers 10, 20 and 30. Each has a download button and an
  \<^verbatim>\<open>img.image\<close>; the download of the second one times out.
\<close>

definition three_images :: env where
  "three_images =
     mock_page\<lparr>query_generated_images := Inr [10, 20, 30],
               element_query_selector :=
                 (\<lambda>attempt gen_img sel.
                    if sel = download_button_selector then Inr (Some (gen_img + 1))
                    else Inr (Some (gen_img + 2))),
               click_download :=
                 (\<lambda>button. if button = 21 then Inl TimeoutError else Inr ''.jpg''),
               time_time := (\<lambda>attempt i. 1700000000 + i)\<rparr>"

text \<open>A question of 109 characters.\<close>

definition long_question :: string where
  "long_question =
     ''Please explain in detail how a persistent browser profile keeps the user signed in between two separate runs.''"

text \<open>No selector of \<^verbatim>\<open>page.query_selector\<close> finds an element.\<close>

definition no_inner_input :: env where
  "no_inner_input = mock_page\<lparr>query_selector := (\<lambda>sel. Inr None)\<rparr>"

text \<open>
  Every response selector matches the same two elements, and the text of each is the same
  at every poll.
\<close>

definition chorus_page :: "string \<Rightarrow> env" where
  "chorus_page text =
     mock_page\<lparr>query_selector_all := (\<lambda>k sel. Inr [2, 3]),
               inner_text := (\<lambda>k el. Inr text)\<rparr>"

text \<open>The state of the loop once \<open>text\<close> has been seen for the first time.\<close>

definition seen_once :: "string \<Rightarrow> poll_state" where
  "seen_once text = initial_poll_state\<lparr>last_text := Some text\<rparr>"

text \<open>Response regions, by the text they show at poll \<open>k\<close>.\<close>

definition four_only :: env where
  "four_only = response_region (\<lambda>k. ''4'')"

definition steady :: "string \<Rightarrow> env" where
  "steady text = response_region (\<lambda>k. text)"

definition three_polls :: "string \<Rightarrow> env" where
  "three_polls text = response_region (\<lambda>k. if k < 3 then text else [])"

definition hello_page :: env where
  "hello_page =
     response_region (\<lambda>k. if k = 0 then [] else if k = 1 then ''Hel'' else ''Hello'')"

definition flicker :: "string \<Rightarrow> env" where
  "flicker text = response_region (\<lambda>k. if even k then text else [])"

definition growing :: env where
  "growing =
     response_region
       (\<lambda>k. if k = 0 then [] else if k = 1 then ''Hello, wor'' else ''Hello, world!'')"

definition alternating :: env where
  "alternating =
     response_region (\<lambda>k. if even k then ''Hello, world!'' else ''Hello, world!!'')"

section \<open>The polling loop, sample by sample\<close>

lemma poll_selector_observe:
  "poll_selector env q k sel st = ((st', b), tr) \<Longrightarrow>
     (window_of st', b) = observe (sample env q k sel) (window_of st) \<and> no_sleep tr"
  by (auto simp: poll_selector_def sample_def window_of_def Let_def no_sleep_def
      split: sum.splits if_splits)

lemma poll_selectors_observe:
  "poll_selectors env q k sels st = (st', tr) \<Longrightarrow>
     window_of st' = observe_all (map (sample env q k) sels) (window_of st) \<and> no_sleep tr"
proof (induction sels arbitrary: st st' tr)
  case Nil
  then show ?case by (simp add: no_sleep_def)
next
  case (Cons sel sels)
  obtain st1 b tr1 where step: "poll_selector env q k sel st = ((st1, b), tr1)"
    by (metis prod.exhaust)
  from poll_selector_observe [OF step]
  have obs: "observe (sample env q k sel) (window_of st) = (window_of st1, b)"
    and ns1: "no_sleep tr1" by simp_all
  show ?case
  proof (cases b)
    case True
    with step Cons.prems have "st' = st1" "tr = tr1" by simp_all
    with obs True ns1 show ?thesis by simp
  next
    case False
    obtain st2 tr2 where rest: "poll_selectors env q k sels st1 = (st2, tr2)"
      by (metis prod.exhaust)
    with step False Cons.prems have eq: "st' = st2" "tr = tr1 @ tr2" by simp_all
    from Cons.IH [OF rest]
    have "window_of st2 = observe_all (map (sample env q k) sels) (window_of st1)"
      and "no_sleep tr2" by simp_all
    with obs False ns1 eq show ?thesis by (auto simp: no_sleep_def)
  qed
qed

lemma observe_all_none:
  "\<forall>x \<in> set xs. x = None \<Longrightarrow> observe_all xs w = w"
  by (induction xs) auto

lemma observe_all_single:
  "distinct sels \<Longrightarrow> s0 \<in> set sels \<Longrightarrow> \<forall>sel \<in> set sels. sel \<noteq> s0 \<longrightarrow> f sel = None \<Longrightarrow>
     observe_all (map f sels) w = fst (observe (f s0) w)"
proof (induction sels arbitrary: w)
  case Nil
  then show ?case by simp
next
  case (Cons sel sels)
  show ?case
  proof (cases "sel = s0")
    case True
    with Cons.prems have "\<forall>x \<in> set (map f sels). x = None" by auto
    then have "observe_all (map f sels) w' = w'" for w'
      by (rule observe_all_none)
    with True show ?thesis by (auto split: prod.splits bool.splits)
  next
    case False
    with Cons.prems have "f sel = None" "distinct sels" "s0 \<in> set sels"
      "\<forall>sel \<in> set sels. sel \<noteq> s0 \<longrightarrow> f sel = None" by auto
    with Cons.IH [of w] show ?thesis by simp
  qed
qed

lemma distinct_response_selectors: "distinct GEMINI_RESPONSE_SELECTORS"
  by (simp add: GEMINI_RESPONSE_SELECTORS_def)

lemma poll_tick_single:
  assumes "single_source env q s0"
    and "poll_selectors env q k GEMINI_RESPONSE_SELECTORS st = (st', tr)"
  shows "window_of st' = fst (observe (sample env q k s0) (window_of st))" and "no_sleep tr"
proof -
  from poll_selectors_observe [OF assms(2)]
  have w: "window_of st' =
      observe_all (map (sample env q k) GEMINI_RESPONSE_SELECTORS) (window_of st)"
    and ns: "no_sleep tr" by simp_all
  from assms(1)
  have "observe_all (map (sample env q k) GEMINI_RESPONSE_SELECTORS) (window_of st)
      = fst (observe (sample env q k s0) (window_of st))"
    unfolding single_source_def
    by (intro observe_all_single distinct_response_selectors) auto
  with w show "window_of st' = fst (observe (sample env q k s0) (window_of st))" by simp
  from ns show "no_sleep tr" .
qed

lemma sample_accepted: "sample env q k sel = Some t \<Longrightarrow> accepted q t"
  by (auto simp: sample_def split: sum.splits if_splits)

lemma accepted_nonempty: "accepted q t \<Longrightarrow> t \<noteq> []"
  by (simp add: accepted_def)

lemma poll_loop_timeout:
  "\<not> 1000 * k + lag env k < 120000 \<Longrightarrow> poll_loop env q k st = (st, [])"
  by (simp add: poll_loop.simps [of env q k st])

lemma poll_loop_step:
  "1000 * k + lag env k < 120000 \<Longrightarrow>
   poll_selectors env q k GEMINI_RESPONSE_SELECTORS st = (st', tr) \<Longrightarrow>
   poll_loop env q k st =
     (if truthy_str (answer st') then (st', tr)
      else (fst (poll_loop env q (Suc k) st'),
            tr @ (Sleep 1000, True) # snd (poll_loop env q (Suc k) st')))"
  by (simp add: poll_loop.simps [of env q k st] split: prod.splits)

text \<open>
  With one source, the loop times out when every accepted sample differs from the accepted
  sample before it.
\<close>

lemma poll_loop_no_repeat:
  "single_source env q s0 \<Longrightarrow>
   \<forall>k. sample env q k s0 = None \<or>
       sample env q k s0 \<noteq> last_seen (\<lambda>k. sample env q k s0) k \<Longrightarrow>
   answer st = None \<Longrightarrow> last_text st = last_seen (\<lambda>k. sample env q k s0) k \<Longrightarrow>
     answer (fst (poll_loop env q k st)) = None"
proof (induction n \<equiv> "120 - k" arbitrary: k st)
  case 0
  then have "\<not> 1000 * k + lag env k < 120000" by arith
  with "0.prems" show ?case by (simp add: poll_loop_timeout)
next
  case (Suc n)
  let ?f = "\<lambda>k. sample env q k s0"
  show ?case
  proof (cases "1000 * k + lag env k < 120000")
    case False
    with Suc.prems show ?thesis by (simp add: poll_loop_timeout)
  next
    case True
    obtain st' tr where tick: "poll_selectors env q k GEMINI_RESPONSE_SELECTORS st = (st', tr)"
      by (metis prod.exhaust)
    have w: "window_of st' = fst (observe (?f k) (window_of st))"
      using Suc.prems(1) tick by (rule poll_tick_single)
    have st': "answer st' = None \<and> last_text st' = last_seen ?f (Suc k)"
    proof (cases "?f k")
      case None
      with w Suc.prems show ?thesis by (simp add: window_of_def)
    next
      case (Some t)
      from Suc.prems(2) have "?f k = None \<or> ?f k \<noteq> last_seen ?f k" by (rule spec)
      with Some have "last_seen ?f k \<noteq> Some t" by auto
      with w Some Suc.prems show ?thesis by (simp add: window_of_def)
    qed
    from Suc.hyps(2) have "n = 120 - Suc k" by simp
    with st' Suc.prems have "answer (fst (poll_loop env q (Suc k) st')) = None"
      by (intro Suc.hyps(1)) simp_all
    with st' show ?thesis by (simp add: poll_loop_step [OF True tick])
  qed
qed

lemma no_sleep_poll_sleeps: "no_sleep tr \<Longrightarrow> poll_sleeps tr = 0"
  by (auto simp: no_sleep_def poll_sleeps_def filter_empty_conv)

lemma poll_sleeps_append: "poll_sleeps (xs @ ys) = poll_sleeps xs + poll_sleeps ys"
  by (simp add: poll_sleeps_def)

lemma poll_sleeps_Cons: "poll_sleeps ((Sleep 1000, True) # xs) = Suc (poll_sleeps xs)"
  by (simp add: poll_sleeps_def)

text \<open>
  With one source and the text \<open>t\<close> already seen \<open>c\<close> times again, \<open>n + 1\<close> further polls
  of \<open>t\<close> bring the counter to 3: the loop returns \<open>t\<close> after \<open>n\<close> sleeps.
\<close>

lemma poll_loop_repeat:
  "single_source env q s0 \<Longrightarrow> window_of st = (None, c, Some t) \<Longrightarrow> c + n = 2 \<Longrightarrow>
   \<forall>i \<le> n. sample env q (k + i) s0 = Some t \<and> 1000 * (k + i) + lag env (k + i) < 120000 \<Longrightarrow>
     answer (fst (poll_loop env q k st)) = Some t \<and>
     poll_sleeps (snd (poll_loop env q k st)) = n"
proof (induction n arbitrary: k st c)
  case 0
  obtain st' tr where tick: "poll_selectors env q k GEMINI_RESPONSE_SELECTORS st = (st', tr)"
    by (metis prod.exhaust)
  from "0.prems" have smp: "sample env q k s0 = Some t"
    and guard: "1000 * k + lag env k < 120000"
    by auto
  from poll_tick_single [OF "0.prems"(1) tick] smp "0.prems"(2,3)
  have "window_of st' = (Some t, 3, Some t)" and ns: "no_sleep tr" by simp_all
  then have a: "answer st' = Some t" by (simp add: window_of_def)
  from smp have "t \<noteq> []" by (auto dest: sample_accepted accepted_nonempty)
  with a ns show ?case by (simp add: poll_loop_step [OF guard tick] no_sleep_poll_sleeps)
next
  case (Suc n)
  obtain st' tr where tick: "poll_selectors env q k GEMINI_RESPONSE_SELECTORS st = (st', tr)"
    by (metis prod.exhaust)
  from Suc.prems(4)
  have "sample env q (k + 0) s0 = Some t \<and> 1000 * (k + 0) + lag env (k + 0) < 120000"
    by blast
  then have smp: "sample env q k s0 = Some t" and guard: "1000 * k + lag env k < 120000"
    by simp_all
  from poll_tick_single [OF Suc.prems(1) tick] smp Suc.prems(2,3)
  have w: "window_of st' = (None, Suc c, Some t)" and ns: "no_sleep tr" by simp_all
  then have a: "answer st' = None" by (simp add: window_of_def)
  have later: "\<forall>i \<le> n. sample env q (Suc k + i) s0 = Some t \<and>
      1000 * (Suc k + i) + lag env (Suc k + i) < 120000"
  proof (intro allI impI)
    fix i assume "i \<le> n"
    then have "Suc i \<le> Suc n" by simp
    with Suc.prems(4)
    have "sample env q (k + Suc i) s0 = Some t \<and>
        1000 * (k + Suc i) + lag env (k + Suc i) < 120000"
      by blast
    then show "sample env q (Suc k + i) s0 = Some t \<and>
        1000 * (Suc k + i) + lag env (Suc k + i) < 120000"
      by simp
  qed
  from Suc.prems(3) have "Suc c + n = 2" by simp
  from Suc.IH [OF Suc.prems(1) w this later]
  have "answer (fst (poll_loop env q (Suc k) st')) = Some t"
    and "poll_sleeps (snd (poll_loop env q (Suc k) st')) = n" by simp_all
  with a ns show ?case
    by (simp add: poll_loop_step [OF guard tick] poll_sleeps_append poll_sleeps_Cons
        no_sleep_poll_sleeps)
qed

text \<open>
  From a state whose last text is not \<open>t\<close>, four polls of \<open>t\<close> are needed: the first sets
  \<open>last_text\<close>, the next three count.
\<close>

lemma poll_loop_stable:
  assumes single: "single_source env q s0"
    and "answer st = None" and "last_text st \<noteq> Some t"
    and four: "\<forall>i \<le> 3. sample env q (k + i) s0 = Some t \<and>
      1000 * (k + i) + lag env (k + i) < 120000"
  shows "answer (fst (poll_loop env q k st)) = Some t \<and>
    poll_sleeps (snd (poll_loop env q k st)) = 3"
proof -
  obtain st' tr where tick: "poll_selectors env q k GEMINI_RESPONSE_SELECTORS st = (st', tr)"
    by (metis prod.exhaust)
  from four
  have "sample env q (k + 0) s0 = Some t \<and> 1000 * (k + 0) + lag env (k + 0) < 120000"
    by blast
  then have smp: "sample env q k s0 = Some t" and guard: "1000 * k + lag env k < 120000"
    by simp_all
  from poll_tick_single [OF single tick] smp assms(2,3)
  have w: "window_of st' = (None, 0, Some t)" and ns: "no_sleep tr"
    by (simp_all add: window_of_def)
  then have a: "answer st' = None" by (simp add: window_of_def)
  have later: "\<forall>i \<le> 2. sample env q (Suc k + i) s0 = Some t \<and>
      1000 * (Suc k + i) + lag env (Suc k + i) < 120000"
  proof (intro allI impI)
    fix i :: nat assume "i \<le> 2"
    then have "Suc i \<le> 3" by simp
    with four
    have "sample env q (k + Suc i) s0 = Some t \<and>
        1000 * (k + Suc i) + lag env (k + Suc i) < 120000"
      by blast
    then show "sample env q (Suc k + i) s0 = Some t \<and>
        1000 * (Suc k + i) + lag env (Suc k + i) < 120000"
      by simp
  qed
  have "(0::nat) + 2 = 2" by simp
  from poll_loop_repeat [OF single w this later]
  have "answer (fst (poll_loop env q (Suc k) st')) = Some t"
    and "poll_sleeps (snd (poll_loop env q (Suc k) st')) = 2" by simp_all
  with a ns show ?thesis
    by (simp add: poll_loop_step [OF guard tick] poll_sleeps_append poll_sleeps_Cons
        no_sleep_poll_sleeps)
qed

section \<open>From the polling loop to the result of ask\_gemini\<close>

lemma ask_session_submitted:
  "submits env q h \<Longrightarrow>
     fst (ask_session env q h) =
       (if truthy_str (answer (fst (poll_loop env q 0 initial_poll_state)))
        then Inr (answer (fst (poll_loop env q 0 initial_poll_state))) else Inr None)"
  by (auto simp: submits_def ask_session_def succeeded_def Let_def
      split: sum.splits option.splits prod.splits)

lemma ask_gemini_submitted:
  "submits env q h \<Longrightarrow>
     fst (ask_gemini env q h) =
       (if truthy_str (answer (fst (poll_loop env q 0 initial_poll_state)))
        then answer (fst (poll_loop env q 0 initial_poll_state)) else None)"
  using ask_session_submitted [of env q h]
  by (auto simp: submits_def ask_gemini_def succeeded_def split: sum.splits prod.splits)

section \<open>Authentication\<close>

text \<open>
  Claim C4. When \<^verbatim>\<open>auth.is_authenticated()\<close> is false, \<^verbatim>\<open>ask_gemini\<close> and
  \<^verbatim>\<open>generate_image\<close> return \<^verbatim>\<open>None\<close> at once: the trace is empty, so Playwright is not
  started, no context is launched, no selector is resolved and nothing is typed; and
  \<^verbatim>\<open>main\<close> exits with code 1.
\<close>

theorem unauthenticated_stops_at_once:
  "\<not> is_authenticated env \<Longrightarrow>
     ask_gemini env question headless = (None, []) \<and>
     ask_gemini_main env question show_browser = (1, []) \<and>
     generate_image env prompt output_dir headless debug = (None, []) \<and>
     generate_image_main env prompt output_dir headless debug = (1, [])"
  by (simp add: ask_gemini_def ask_gemini_main_def generate_image_def generate_image_main_def)

theorem unauthenticated_stops_at_once_witness:
  "\<not> is_authenticated signed_out \<and>
   ask_gemini signed_out ''What is 2+2?'' True = (None, []) \<and>
   ask_gemini_main signed_out ''What is 2+2?'' False = (1, []) \<and>
   generate_image signed_out ''a red fox'' ''out'' False False = (None, []) \<and>
   generate_image_main signed_out ''a red fox'' ''out'' False False = (1, [])"
proof -
  have h: "\<not> is_authenticated signed_out" by (simp add: signed_out_def mock_page_def)
  from unauthenticated_stops_at_once [OF h] h show ?thesis by blast
qed

section \<open>Typing the question: the order of the methods\<close>

text \<open>
  Claim C6. \<^verbatim>\<open>ask_gemini\<close> tries method 1 (click, then typing character by character)
  first; it tries method 2 (fill) only when method 1 raised, and method 3 (the script that
  assigns the value and dispatches \<^verbatim>\<open>input\<close> and \<^verbatim>\<open>change\<close>) only when method 2
  raised too; no method is tried after one that returned; and typing fails (line 167,
  \<^verbatim>\<open>return None\<close>) only when all three raised.
\<close>

theorem typing_fallback_order:
  "type_question env el ws q = (typed, tr) \<Longrightarrow>
     methods_tried tr =
       (if succeeded (click env el) \<and> succeeded (type_text env el q 50) then [1]
        else if succeeded (fill env el q) then [1, 2]
        else [1, 2, 3]) \<and>
     typed =
       ((succeeded (click env el) \<and> succeeded (type_text env el q 50)) \<or>
        succeeded (fill env el q) \<or> succeeded (evaluate env ws q))"
  by (auto simp: type_question_def typing_method_2_def typing_method_3_def methods_tried_def
      succeeded_def List.map_filter_simps split: sum.splits)

theorem typing_fallback_order_witness:
  "type_question (flaky_input False False True) 1 ''rich-textarea'' ''What is 2+2?''
     = (True, [(Click 1, True), (Sleep 500, True), (TypeText 1 ''What is 2+2?'' 50, False),
               (Fill 1 ''What is 2+2?'', False),
               (Evaluate ''rich-textarea'' ''What is 2+2?'', True)]) \<and>
   methods_tried
     (snd (type_question (flaky_input False False True) 1 ''rich-textarea'' ''What is 2+2?''))
     = [1, 2, 3] \<and>
   fst (type_question (flaky_input True False False) 1 ''rich-textarea'' ''What is 2+2?'') \<and>
   methods_tried
     (snd (type_question (flaky_input True False False) 1 ''rich-textarea'' ''What is 2+2?''))
     = [1] \<and>
   \<not> fst (type_question (flaky_input False False False) 1 ''rich-textarea'' ''What is 2+2?'')"
proof -
  have a: "type_question (flaky_input False False True) 1 ''rich-textarea'' ''What is 2+2?''
     = (True, [(Click 1, True), (Sleep 500, True), (TypeText 1 ''What is 2+2?'' 50, False),
               (Fill 1 ''What is 2+2?'', False),
               (Evaluate ''rich-textarea'' ''What is 2+2?'', True)])"
    by (simp add: type_question_def typing_method_2_def typing_method_3_def flaky_input_def
        mock_page_def)
  obtain r1 t1 where b:
    "type_question (flaky_input True False False) 1 ''rich-textarea'' ''What is 2+2?'' = (r1, t1)"
    by (metis prod.exhaust)
  obtain r2 t2 where c:
    "type_question (flaky_input False False False) 1 ''rich-textarea'' ''What is 2+2?'' = (r2, t2)"
    by (metis prod.exhaust)
  from typing_fallback_order [OF a] typing_fallback_order [OF b] typing_fallback_order [OF c]
    a b c
  show ?thesis by (simp add: succeeded_def flaky_input_def mock_page_def)
qed

section \<open>Resolving a selector list: the first visible match\<close>

lemma find_input_find:
  "find_input env timeout sels =
     (case List.find (visible_match env timeout) sels of
        None \<Rightarrow> (None, map (attempt env timeout) sels)
      | Some sel \<Rightarrow>
          (matched_element env timeout sel,
           map (attempt env timeout)
             (takeWhile (\<lambda>s. \<not> visible_match env timeout s) sels @ [sel])))"
proof (induction sels)
  case Nil
  show ?case by simp
next
  case (Cons sel sels)
  show ?case
  proof (cases "visible_match env timeout sel")
    case True
    then show ?thesis
      by (auto simp: visible_match_def matched_element_def attempt_def succeeded_def
          split: sum.splits option.splits)
  next
    case False
    with Cons.IH show ?thesis
      by (auto simp: visible_match_def attempt_def succeeded_def
          split: sum.splits option.splits)
  qed
qed

lemma click_image_button_hit:
  "clicked_match env sel \<Longrightarrow>
     fst (click_image_button env (sel # sels)) \<and>
     List.map_filter waited (snd (click_image_button env (sel # sels))) = [sel]"
  by (auto simp: clicked_match_def succeeded_def List.map_filter_simps
      split: sum.splits option.splits)

lemma click_image_button_miss:
  "\<not> clicked_match env sel \<Longrightarrow>
     fst (click_image_button env (sel # sels)) = fst (click_image_button env sels) \<and>
     List.map_filter waited (snd (click_image_button env (sel # sels))) =
       sel # List.map_filter waited (snd (click_image_button env sels))"
  by (auto simp: clicked_match_def succeeded_def List.map_filter_simps
      split: sum.splits option.splits prod.splits)

lemma click_image_button_find:
  "fst (click_image_button env sels) = (List.find (clicked_match env) sels \<noteq> None) \<and>
   List.map_filter waited (snd (click_image_button env sels)) =
     takeWhile (\<lambda>s. \<not> clicked_match env s) sels @
     (case List.find (clicked_match env) sels of None \<Rightarrow> [] | Some sel \<Rightarrow> [sel])"
proof (induction sels)
  case Nil
  show ?case by (simp add: List.map_filter_simps)
next
  case (Cons sel sels)
  show ?case
  proof (cases "clicked_match env sel")
    case True
    with click_image_button_hit [OF True, of sels] show ?thesis
      by (simp del: click_image_button.simps)
  next
    case False
    with click_image_button_miss [OF False, of sels] Cons.IH show ?thesis
      by (simp del: click_image_button.simps)
  qed
qed

text \<open>
  Claim C9. For every list of selectors, the loop that finds the input field (lines 95 to
  108 of \<^verbatim>\<open>ask_gemini.py\<close>, lines 115 to 122 of \<^verbatim>\<open>generate_image.py\<close>) returns the
  element of the first selector of the list that matches a visible element, whether or not
  later selectors match as well. It waits for each candidate with the same bounded timeout,
  in list order, up to that selector and no further; a candidate whose wait raises counts as
  no match and the loop goes on to the next. The loop for the Image button (lines 88 to
  100 of \<^verbatim>\<open>generate_image.py\<close>) resolves in the same way, with the click inside the
  \<^verbatim>\<open>try\<close>: it stops at the first selector that matches a visible button whose click
  returns, and a button whose click raises counts as no match.
\<close>

theorem find_input_first_match:
  "find_input env timeout sels =
     (case List.find (visible_match env timeout) sels of
        None \<Rightarrow> (None, map (attempt env timeout) sels)
      | Some sel \<Rightarrow>
          (matched_element env timeout sel,
           map (attempt env timeout)
             (takeWhile (\<lambda>s. \<not> visible_match env timeout s) sels @ [sel]))) \<and>
   fst (click_image_button env sels) = (List.find (clicked_match env) sels \<noteq> None) \<and>
   List.map_filter waited (snd (click_image_button env sels)) =
     takeWhile (\<lambda>s. \<not> clicked_match env s) sels @
     (case List.find (clicked_match env) sels of None \<Rightarrow> [] | Some sel \<Rightarrow> [sel])"
  using find_input_find [of env timeout sels] click_image_button_find [of env sels]
  by (simp del: find_input.simps click_image_button.simps)

theorem find_input_first_match_witness:
  "find_input late_input 10000 GEMINI_INPUT_SELECTORS =
     (Some 7,
      [(WaitForSelector (GEMINI_INPUT_SELECTORS ! 0) 10000, True),
       (WaitForSelector ''rich-textarea[placeholder*='Enter']'' 10000, False),
       (WaitForSelector ''rich-textarea'' 10000, True)]) \<and>
   visible_match late_input 10000 ''.ql-editor[contenteditable='true']'' \<and>
   click_image_button stubborn_button IMAGE_BUTTON_SELECTORS =
     (True, [(WaitForSelector ''button[aria-label*='Image']'' 5000, True), (Click 4, False),
             (WaitForSelector ''button[aria-label*='image']'' 5000, True), (Click 5, True),
             (Sleep 1000, True)]) \<and>
   List.find (clicked_match stubborn_button) IMAGE_BUTTON_SELECTORS =
     Some ''button[aria-label*='image']''"
proof -
  have a: "find_input late_input 10000 GEMINI_INPUT_SELECTORS =
     (Some 7,
      [(WaitForSelector (GEMINI_INPUT_SELECTORS ! 0) 10000, True),
       (WaitForSelector ''rich-textarea[placeholder*='Enter']'' 10000, False),
       (WaitForSelector ''rich-textarea'' 10000, True)]) \<and>
   visible_match late_input 10000 ''.ql-editor[contenteditable='true']''"
    using find_input_first_match [of late_input 10000 GEMINI_INPUT_SELECTORS]
    by (simp add: GEMINI_INPUT_SELECTORS_def late_input_def mock_page_def visible_match_def
        matched_element_def attempt_def succeeded_def)
  have b: "click_image_button stubborn_button IMAGE_BUTTON_SELECTORS =
     (True, [(WaitForSelector ''button[aria-label*='Image']'' 5000, True), (Click 4, False),
             (WaitForSelector ''button[aria-label*='image']'' 5000, True), (Click 5, True),
             (Sleep 1000, True)])"
    by (simp add: stubborn_button_def mock_page_def IMAGE_BUTTON_SELECTORS_def)
  have c: "List.find (clicked_match stubborn_button) IMAGE_BUTTON_SELECTORS =
     Some ''button[aria-label*='image']''"
    by (simp add: stubborn_button_def mock_page_def IMAGE_BUTTON_SELECTORS_def
        clicked_match_def succeeded_def)
  from a b c show ?thesis by blast
qed

section \<open>Releasing the session\<close>

lemma session_calls_steps: "session_calls (map step_event tr) = []"
  by (simp add: session_calls_def filter_empty_conv step_event_def)

lemma session_calls_pause: "session_calls (debug_pause h) = []"
  by (simp add: session_calls_def debug_pause_def)

lemma session_calls_Nil: "session_calls [] = []"
  by (simp add: session_calls_def)

lemma session_calls_append: "session_calls (xs @ ys) = session_calls xs @ session_calls ys"
  by (simp add: session_calls_def)

lemma session_calls_Session: "session_calls (Session c ok # tr) = Session c ok # session_calls tr"
  by (simp add: session_calls_def)

lemma session_calls_factory:
  "session_calls (snd (launch_persistent_context env h)) = snd (launch_persistent_context env h)"
  by (simp add: session_calls_def launch_persistent_context_def inject_cookies_def split: sum.splits option.splits bool.splits)

lemma filter_steps:
  "filter launch_call (map step_event tr) = []" "filter close_call (map step_event tr) = []"
  "filter stop_call (map step_event tr) = []"
  by (simp_all add: filter_empty_conv step_event_def)

lemma filter_pause:
  "filter launch_call (debug_pause h) = []" "filter close_call (debug_pause h) = []"
  "filter stop_call (debug_pause h) = []"
  by (simp_all add: debug_pause_def)

lemma filter_factory:
  "succeeded (chromium_launch env h) \<Longrightarrow>
     filter launch_call (snd (launch_persistent_context env h)) = [Session (ChromiumLaunch h) True]"
  "filter close_call (snd (launch_persistent_context env h)) = []"
  "filter stop_call (snd (launch_persistent_context env h)) = []"
  by (simp_all add: launch_persistent_context_def inject_cookies_def
      succeeded_def split: sum.splits option.splits bool.splits)

lemma factory_returns:
  "succeeded (fst (launch_persistent_context env h)) \<longleftrightarrow>
     succeeded (chromium_launch env h) \<and> succeeded (state_file_exists env)"
  by (simp add: launch_persistent_context_def inject_cookies_def succeeded_def
      split: sum.splits bool.splits)

lemma factory_raises_at_launch:
  "\<not> succeeded (chromium_launch env h) \<Longrightarrow>
     launch_persistent_context env h =
       (Inl (case chromium_launch env h of Inl e \<Rightarrow> e), [Session (ChromiumLaunch h) False])"
  by (simp add: launch_persistent_context_def succeeded_def split: sum.splits)

lemma released_bound:
  assumes ok: "succeeded (fst (launch_persistent_context env h))"
    and mid: "mid = debug_pause h \<or> mid = []"
  shows "released env h (Session StartPlaywright True #
     snd (launch_persistent_context env h) @ map step_event tr2 @ mid @ cleanup env True True)"
proof -
  let ?fin = "[Session ContextClose (succeeded (context_close env)),
      Session PlaywrightStop (succeeded (playwright_stop env))]"
  let ?tr = "Session StartPlaywright True #
     snd (launch_persistent_context env h) @ map step_event tr2 @ mid @ cleanup env True True"
  from mid have mid_calls: "session_calls mid = []" "filter launch_call mid = []"
    "filter close_call mid = []" "filter stop_call mid = []"
    by (elim disjE; simp add: session_calls_pause filter_pause session_calls_Nil)+
  from ok have launch: "succeeded (chromium_launch env h)" by (simp add: factory_returns)
  have fin: "cleanup env True True = ?fin" by (simp add: cleanup_def)
  have "?tr = (Session StartPlaywright True #
     snd (launch_persistent_context env h) @ map step_event tr2 @ mid) @ ?fin"
    by (simp add: fin)
  then have last: "suffix ?fin ?tr" unfolding suffix_def by blast
  have calls: "session_calls ?tr =
      Session StartPlaywright True # snd (launch_persistent_context env h) @ ?fin"
    by (simp add: session_calls_Session session_calls_append session_calls_factory
        session_calls_steps session_calls_Nil mid_calls fin)
  have one: "filter launch_call ?tr = [Session (ChromiumLaunch h) True]"
    "length (filter close_call ?tr) = 1" "length (filter stop_call ?tr) = 1"
    by (simp_all add: filter_factory(1) [OF launch] filter_factory(2,3) filter_steps mid_calls fin)
  from last calls one show ?thesis unfolding released_def by blast
qed

lemma driver_released_unlaunched:
  "driver_released env h (Session StartPlaywright True # [Session (ChromiumLaunch h) False] @
     debug_pause h @ cleanup env False True)"
  by (simp add: driver_released_def cleanup_def session_calls_def debug_pause_def suffix_def)

text \<open>
  The frame shared by \<^verbatim>\<open>ask_gemini\<close> and \<^verbatim>\<open>generate_image\<close>: whatever the body of
  the \<^verbatim>\<open>try\<close> block does, and however it ends.
\<close>

lemma frame_released:
  fixes env :: env and headless :: bool and body :: "(error + 'a option) \<times> step list"
  defines "tr \<equiv>
     snd (if \<not> is_authenticated env then (None, [])
      else
        (case start_playwright env of
           Inl e \<Rightarrow>
             (None, Session StartPlaywright False # debug_pause headless @ cleanup env False False)
         | Inr _ \<Rightarrow>
        (case launch_persistent_context env headless of
           (Inl e, tr1) \<Rightarrow>
             (None, Session StartPlaywright True # tr1 @ debug_pause headless @
                    cleanup env False True)
         | (Inr _, tr1) \<Rightarrow>
        (case body of
           (Inl e, tr2) \<Rightarrow>
             (None, Session StartPlaywright True # tr1 @ map step_event tr2 @
                    debug_pause headless @ cleanup env True True)
         | (Inr r, tr2) \<Rightarrow>
             (r, Session StartPlaywright True # tr1 @ map step_event tr2 @
                 cleanup env True True)))))"
  shows "(\<not> is_authenticated env \<longrightarrow> tr = []) \<and>
     (is_authenticated env \<and> \<not> succeeded (start_playwright env) \<longrightarrow>
        session_calls tr = [Session StartPlaywright False]) \<and>
     (is_authenticated env \<and> succeeded (start_playwright env) \<and>
      \<not> succeeded (chromium_launch env headless) \<longrightarrow> driver_released env headless tr) \<and>
     (is_authenticated env \<and> succeeded (start_playwright env) \<and>
      succeeded (fst (launch_persistent_context env headless)) \<longrightarrow>
        released env headless tr)"
proof (intro conjI impI)
  assume "\<not> is_authenticated env"
  then show "tr = []" by (simp add: tr_def)
next
  assume "is_authenticated env \<and> \<not> succeeded (start_playwright env)"
  then show "session_calls tr = [Session StartPlaywright False]"
    by (simp add: tr_def succeeded_def cleanup_def session_calls_def debug_pause_def
        split: sum.splits)
next
  assume a: "is_authenticated env \<and> succeeded (start_playwright env) \<and>
    \<not> succeeded (chromium_launch env headless)"
  then have "tr = Session StartPlaywright True # [Session (ChromiumLaunch headless) False] @
     debug_pause headless @ cleanup env False True"
    by (simp add: tr_def succeeded_def factory_raises_at_launch split: sum.splits)
  then show "driver_released env headless tr"
    by (simp only: driver_released_unlaunched)
next
  assume a: "is_authenticated env \<and> succeeded (start_playwright env) \<and>
    succeeded (fst (launch_persistent_context env headless))"
  obtain r tr2 where body: "body = (r, tr2)" by (metis prod.exhaust)
  obtain c tr1 where factory: "launch_persistent_context env headless = (Inr c, tr1)"
    using a by (cases "launch_persistent_context env headless")
      (auto simp: succeeded_def split: sum.splits)
  then have tr1: "tr1 = snd (launch_persistent_context env headless)" by simp
  show "released env headless tr"
  proof (cases r)
    case (Inl e)
    with a body factory have "tr = Session StartPlaywright True #
       snd (launch_persistent_context env headless) @ map step_event tr2 @
       debug_pause headless @ cleanup env True True"
      by (simp add: tr_def succeeded_def split: sum.splits)
    then show ?thesis using released_bound [of env headless "debug_pause headless" tr2] a
      by simp
  next
    case (Inr v)
    with a body factory have "tr = Session StartPlaywright True #
       snd (launch_persistent_context env headless) @ map step_event tr2 @
       [] @ cleanup env True True"
      by (simp add: tr_def succeeded_def split: sum.splits)
    then show ?thesis using released_bound [of env headless "[]" tr2] a
      by simp
  qed
qed

text \<open>
  Claim C7, as stated, fails. A user who is not authenticated gets no session at all.
  When \<^verbatim>\<open>context.close()\<close> raises, the exception is swallowed and the function returns
  with the context not closed. And when \<^verbatim>\<open>STATE_FILE.exists()\<close> raises after the launch,
  the context is launched, never handed to the caller and never closed: the only call of
  the release is \<^verbatim>\<open>playwright.stop()\<close>.
\<close>

theorem session_release_counterexample:
  "ask_gemini signed_out ''What is 2+2?'' True = (None, []) \<and>
   generate_image signed_out ''A red fox'' ''out'' True False = (None, []) \<and>
   ask_gemini crashing_page ''What is 2+2?'' True =
     (None, [Session StartPlaywright True, Session (ChromiumLaunch True) True,
             Session StateFileExists True, Step NewPage True, Step Goto False,
             Session ContextClose False, Session PlaywrightStop True]) \<and>
   ask_gemini locked_state ''What is 2+2?'' True =
     (None, [Session StartPlaywright True, Session (ChromiumLaunch True) True,
             Session StateFileExists False, Session PlaywrightStop True]) \<and>
   generate_image locked_state ''A red fox'' ''out'' True False =
     (None, [Session StartPlaywright True, Session (ChromiumLaunch True) True,
             Session StateFileExists False, Session PlaywrightStop True]) \<and>
   filter launched (snd (ask_gemini locked_state ''What is 2+2?'' True)) =
     [Session (ChromiumLaunch True) True] \<and>
   filter close_call (snd (ask_gemini locked_state ''What is 2+2?'' True)) = [] \<and>
   filter launched (snd (generate_image locked_state ''A red fox'' ''out'' True False)) =
     [Session (ChromiumLaunch True) True] \<and>
   filter close_call (snd (generate_image locked_state ''A red fox'' ''out'' True False)) = []"
  by (simp add: ask_gemini_def generate_image_def launch_persistent_context_def
      inject_cookies_def ask_session_def signed_out_def crashing_page_def locked_state_def
      mock_page_def debug_pause_def cleanup_def succeeded_def step_event_def)

text \<open>
  Claim C7, as the code has it. On every path out of \<^verbatim>\<open>ask_gemini\<close> and
  \<^verbatim>\<open>generate_image\<close> on which \<^verbatim>\<open>launch_persistent_context\<close> has handed over the context
  (a value returned, a failure detected, an exception raised by any later call),
  \<^verbatim>\<open>context.close()\<close> and then \<^verbatim>\<open>playwright.stop()\<close> are the last two calls before the
  function returns, each called once, whether or not they raise; the context is closed and
  the driver stopped when these calls return. On these paths one context is launched, and
  the session calls are those of the start, of the factory and of the release, and no
  other. When the launch itself raises, no context exists and \<^verbatim>\<open>playwright.stop()\<close> is
  the last call. When the user is not authenticated nothing is called, and when the driver
  does not start nothing was acquired and nothing is released. The path on which
  \<^verbatim>\<open>_inject_cookies\<close> raises after the launch is not covered by this statement.
\<close>

theorem bound_session_released:
  assumes "tr = snd (ask_gemini env question headless) \<or>
           tr = snd (generate_image env prompt output_dir headless debug)"
  shows "(\<not> is_authenticated env \<longrightarrow> tr = []) \<and>
     (is_authenticated env \<and> \<not> succeeded (start_playwright env) \<longrightarrow>
        session_calls tr = [Session StartPlaywright False]) \<and>
     (is_authenticated env \<and> succeeded (start_playwright env) \<and>
      \<not> succeeded (chromium_launch env headless) \<longrightarrow> driver_released env headless tr) \<and>
     (is_authenticated env \<and> succeeded (start_playwright env) \<and>
      succeeded (fst (launch_persistent_context env headless)) \<longrightarrow>
        released env headless tr)"
  using assms
proof
  assume ask: "tr = snd (ask_gemini env question headless)"
  show ?thesis unfolding ask ask_gemini_def by (rule frame_released)
next
  assume gen: "tr = snd (generate_image env prompt output_dir headless debug)"
  show ?thesis unfolding gen generate_image_def by (rule frame_released)
qed

theorem bound_session_released_witness:
  "ask_gemini blank_page ''What is 2+2?'' True =
     (None, [Session StartPlaywright True, Session (ChromiumLaunch True) True,
             Session StateFileExists True, Session LoadState True,
             Session (AddCookies [''SID'']) True,
             Step NewPage True, Step Goto True, Step (Sleep 3000) True,
             Step (WaitForSelector (GEMINI_INPUT_SELECTORS ! 0) 10000) True,
             Step (WaitForSelector (GEMINI_INPUT_SELECTORS ! 1) 10000) True,
             Step (WaitForSelector (GEMINI_INPUT_SELECTORS ! 2) 10000) True,
             Step (WaitForSelector (GEMINI_INPUT_SELECTORS ! 3) 10000) True,
             Step (WaitForSelector (GEMINI_INPUT_SELECTORS ! 4) 10000) True,
             Session ContextClose True, Session PlaywrightStop True]) \<and>
   released blank_page True (snd (ask_gemini blank_page ''What is 2+2?'' True)) \<and>
   session_calls (snd (generate_image blank_page ''A red fox'' ''out'' True False)) =
     [Session StartPlaywright True, Session (ChromiumLaunch True) True,
      Session StateFileExists True, Session LoadState True,
      Session (AddCookies [''SID'']) True,
      Session ContextClose True, Session PlaywrightStop True] \<and>
   released blank_page True (snd (generate_image blank_page ''A red fox'' ''out'' True False)) \<and>
   generate_image crashing_page ''A red fox'' ''out'' False False =
     (None, [Session StartPlaywright True, Session (ChromiumLaunch False) True,
             Session StateFileExists True, Step NewPage True, Step Goto False,
             Step (Sleep 30000) True,
             Session ContextClose False, Session PlaywrightStop True]) \<and>
   released crashing_page False
     (snd (generate_image crashing_page ''A red fox'' ''out'' False False)) \<and>
   released crashing_page False (snd (ask_gemini crashing_page ''What is 2+2?'' False)) \<and>
   released growing True (snd (ask_gemini growing ''Say hello'' True)) \<and>
   released three_images True (snd (generate_image three_images ''A red fox'' ''out'' True False)) \<and>
   ask_gemini no_browser ''What is 2+2?'' False =
     (None, [Session StartPlaywright True, Session (ChromiumLaunch False) False,
             Step (Sleep 30000) True, Session PlaywrightStop True]) \<and>
   driver_released no_browser False (snd (ask_gemini no_browser ''What is 2+2?'' False)) \<and>
   driver_released no_browser True
     (snd (generate_image no_browser ''A red fox'' ''out'' True False)) \<and>
   session_calls (snd (ask_gemini no_driver ''What is 2+2?'' True)) =
     [Session StartPlaywright False] \<and>
   session_calls (snd (generate_image no_driver ''A red fox'' ''out'' True False)) =
     [Session StartPlaywright False] \<and>
   snd (ask_gemini signed_out ''What is 2+2?'' True) = [] \<and>
   snd (generate_image signed_out ''A red fox'' ''out'' True False) = []"
proof -
  note ask = bound_session_released [OF disjI1 [OF refl], where question = "''What is 2+2?''"]
  note hello = bound_session_released [OF disjI1 [OF refl], where question = "''Say hello''"]
  note gen = bound_session_released [OF disjI2 [OF refl], where prompt = "''A red fox''"
      and output_dir = "''out''" and debug = False]
  have blank: "is_authenticated blank_page" "succeeded (start_playwright blank_page)"
    "succeeded (fst (launch_persistent_context blank_page True))"
    by (simp_all add: blank_page_def mock_page_def succeeded_def launch_persistent_context_def
        inject_cookies_def)
  have crashing: "is_authenticated crashing_page" "succeeded (start_playwright crashing_page)"
    "succeeded (fst (launch_persistent_context crashing_page False))"
    by (simp_all add: crashing_page_def mock_page_def succeeded_def
        launch_persistent_context_def inject_cookies_def)
  have growing: "is_authenticated growing" "succeeded (start_playwright growing)"
    "succeeded (fst (launch_persistent_context growing True))"
    by (simp_all add: growing_def response_region_def mock_page_def succeeded_def
        launch_persistent_context_def inject_cookies_def)
  have three: "is_authenticated three_images" "succeeded (start_playwright three_images)"
    "succeeded (fst (launch_persistent_context three_images True))"
    by (simp_all add: three_images_def mock_page_def succeeded_def
        launch_persistent_context_def inject_cookies_def)
  have no_browser: "is_authenticated no_browser" "succeeded (start_playwright no_browser)"
    "\<not> succeeded (chromium_launch no_browser h)" for h
    by (simp_all add: no_browser_def mock_page_def succeeded_def)
  have no_driver: "is_authenticated no_driver" "\<not> succeeded (start_playwright no_driver)"
    by (simp_all add: no_driver_def mock_page_def succeeded_def)
  have signed_out: "\<not> is_authenticated signed_out"
    by (simp add: signed_out_def mock_page_def)
  have factory: "launch_persistent_context blank_page True =
     (Inr (), [Session (ChromiumLaunch True) True, Session StateFileExists True,
               Session LoadState True, Session (AddCookies [''SID'']) True])"
    "succeeded (context_close blank_page)" "succeeded (playwright_stop blank_page)"
    by (simp_all add: launch_persistent_context_def inject_cookies_def
        blank_page_def mock_page_def succeeded_def)
  have a: "ask_gemini blank_page ''What is 2+2?'' True =
     (None, [Session StartPlaywright True, Session (ChromiumLaunch True) True,
             Session StateFileExists True, Session LoadState True,
             Session (AddCookies [''SID'']) True,
             Step NewPage True, Step Goto True, Step (Sleep 3000) True,
             Step (WaitForSelector (GEMINI_INPUT_SELECTORS ! 0) 10000) True,
             Step (WaitForSelector (GEMINI_INPUT_SELECTORS ! 1) 10000) True,
             Step (WaitForSelector (GEMINI_INPUT_SELECTORS ! 2) 10000) True,
             Step (WaitForSelector (GEMINI_INPUT_SELECTORS ! 3) 10000) True,
             Step (WaitForSelector (GEMINI_INPUT_SELECTORS ! 4) 10000) True,
             Session ContextClose True, Session PlaywrightStop True])"
    by (simp add: ask_gemini_def launch_persistent_context_def inject_cookies_def ask_session_def blank_page_def mock_page_def debug_pause_def
        cleanup_def succeeded_def step_event_def GEMINI_INPUT_SELECTORS_def)
  have b: "generate_image crashing_page ''A red fox'' ''out'' False False =
     (None, [Session StartPlaywright True, Session (ChromiumLaunch False) True,
             Session StateFileExists True, Step NewPage True, Step Goto False,
             Step (Sleep 30000) True,
             Session ContextClose False, Session PlaywrightStop True])"
    by (simp add: generate_image_def launch_persistent_context_def inject_cookies_def
        image_session_def crashing_page_def mock_page_def debug_pause_def
        cleanup_def succeeded_def step_event_def)
  have c: "ask_gemini no_browser ''What is 2+2?'' False =
     (None, [Session StartPlaywright True, Session (ChromiumLaunch False) False,
             Step (Sleep 30000) True, Session PlaywrightStop True])"
    by (simp add: ask_gemini_def launch_persistent_context_def no_browser_def mock_page_def
        debug_pause_def cleanup_def succeeded_def)
  have d: "session_calls (snd (generate_image blank_page ''A red fox'' ''out'' True False)) =
     [Session StartPlaywright True, Session (ChromiumLaunch True) True,
      Session StateFileExists True, Session LoadState True,
      Session (AddCookies [''SID'']) True,
      Session ContextClose True, Session PlaywrightStop True]"
    using gen [where env = blank_page and headless = True] blank factory
    by (simp add: released_def)
  have r1: "released blank_page True (snd (ask_gemini blank_page ''What is 2+2?'' True))"
    using ask [where env = blank_page and headless = True] blank by simp
  have r2: "released blank_page True
      (snd (generate_image blank_page ''A red fox'' ''out'' True False))"
    using gen [where env = blank_page and headless = True] blank by simp
  have r3: "released crashing_page False
      (snd (generate_image crashing_page ''A red fox'' ''out'' False False))"
    using gen [where env = crashing_page and headless = False] crashing by simp
  have r4: "released crashing_page False (snd (ask_gemini crashing_page ''What is 2+2?'' False))"
    using ask [where env = crashing_page and headless = False] crashing by simp
  have r5: "released growing True (snd (ask_gemini growing ''Say hello'' True))"
    using hello [where env = growing and headless = True] growing by simp
  have r6: "released three_images True
      (snd (generate_image three_images ''A red fox'' ''out'' True False))"
    using gen [where env = three_images and headless = True] three by simp
  have r7: "driver_released no_browser False
      (snd (ask_gemini no_browser ''What is 2+2?'' False))"
    using ask [where env = no_browser and headless = False] no_browser by simp
  have r8: "driver_released no_browser True
      (snd (generate_image no_browser ''A red fox'' ''out'' True False))"
    using gen [where env = no_browser and headless = True] no_browser by simp
  have r9: "session_calls (snd (ask_gemini no_driver ''What is 2+2?'' True)) =
      [Session StartPlaywright False]"
    using ask [where env = no_driver and headless = True] no_driver by simp
  have r10: "session_calls (snd (generate_image no_driver ''A red fox'' ''out'' True False)) =
      [Session StartPlaywright False]"
    using gen [where env = no_driver and headless = True] no_driver by simp
  have r11: "snd (ask_gemini signed_out ''What is 2+2?'' True) = []"
    using ask [where env = signed_out and headless = True] signed_out by simp
  have r12: "snd (generate_image signed_out ''A red fox'' ''out'' True False) = []"
    using gen [where env = signed_out and headless = True] signed_out by simp
  show ?thesis by (intro conjI a r1 d r2 b r3 r4 r5 r6 c r7 r8 r9 r10 r11 r12)
qed

section \<open>The prompt is never the answer\<close>

lemma observe_not_question:
  "observe x w = (w', b) \<Longrightarrow> x \<noteq> Some q \<Longrightarrow> fst w \<noteq> Some q \<Longrightarrow> fst w' \<noteq> Some q"
  by (cases x; cases w) (auto split: if_splits)

lemma sample_not_question: "sample env q k sel \<noteq> Some q"
  using sample_accepted [of env q k sel q] by (auto simp: accepted_def)

lemma poll_selectors_not_question:
  "poll_selectors env q k sels st = (st', tr) \<Longrightarrow> answer st \<noteq> Some q \<Longrightarrow>
     answer st' \<noteq> Some q"
proof (induction sels arbitrary: st st' tr)
  case Nil
  then show ?case by simp
next
  case (Cons sel sels)
  obtain st1 b tr1 where step: "poll_selector env q k sel st = ((st1, b), tr1)"
    by (metis prod.exhaust)
  from poll_selector_observe [OF step]
  have "observe (sample env q k sel) (window_of st) = (window_of st1, b)" by simp
  from observe_not_question [OF this sample_not_question] Cons.prems(2)
  have a1: "answer st1 \<noteq> Some q" by (simp add: window_of_def)
  show ?case
  proof (cases b)
    case True
    with step Cons.prems(1) a1 show ?thesis by simp
  next
    case False
    obtain st2 tr2 where rest: "poll_selectors env q k sels st1 = (st2, tr2)"
      by (metis prod.exhaust)
    with step False Cons.prems(1) have "st' = st2" by simp
    with Cons.IH [OF rest a1] show ?thesis by simp
  qed
qed

lemma poll_loop_not_question:
  "answer st \<noteq> Some q \<Longrightarrow> answer (fst (poll_loop env q k st)) \<noteq> Some q"
proof (induction n \<equiv> "120 - k" arbitrary: k st)
  case 0
  then have "\<not> 1000 * k + lag env k < 120000" by arith
  with "0.prems" show ?case by (simp add: poll_loop_timeout)
next
  case (Suc n)
  show ?case
  proof (cases "1000 * k + lag env k < 120000")
    case False
    with Suc.prems show ?thesis by (simp add: poll_loop_timeout)
  next
    case True
    obtain st' tr where tick: "poll_selectors env q k GEMINI_RESPONSE_SELECTORS st = (st', tr)"
      by (metis prod.exhaust)
    from poll_selectors_not_question [OF tick Suc.prems] have a: "answer st' \<noteq> Some q" .
    from Suc.hyps(2) have "n = 120 - Suc k" by simp
    from Suc.hyps(1) [OF this a] a show ?thesis
      by (simp add: poll_loop_step [OF True tick])
  qed
qed

lemma ask_session_not_question: "fst (ask_session env q h) \<noteq> Inr (Some q)"
  using poll_loop_not_question [of initial_poll_state q env 0]
  by (auto simp: ask_session_def initial_poll_state_def Let_def
      split: sum.splits option.splits prod.splits if_splits)

text \<open>
  Claim C8. The polling loop never returns the submitted prompt: line 196 rejects a text
  equal to the question, so no selector at no poll hands the question to the stability
  check, the loop never ends with the question as its answer, and \<^verbatim>\<open>ask_gemini\<close> never
  returns it, whatever the page shows.
\<close>

theorem never_returns_the_question:
  "\<not> accepted question question \<and>
   sample env question tick sel \<noteq> Some question \<and>
   answer (fst (poll_loop env question 0 initial_poll_state)) \<noteq> Some question \<and>
   fst (ask_gemini env question headless) \<noteq> Some question"
proof -
  have "answer (fst (poll_loop env question 0 initial_poll_state)) \<noteq> Some question"
    by (rule poll_loop_not_question) (simp add: initial_poll_state_def)
  moreover have "fst (ask_gemini env question headless) \<noteq> Some question"
    using ask_session_not_question [of env question headless]
    by (auto simp: ask_gemini_def split: sum.splits prod.splits)
  ultimately show ?thesis
    using sample_not_question [of env question tick sel] by (simp add: accepted_def)
qed

theorem never_returns_the_question_witness:
  "inner_text (echo_page ''What is the capital of France?'') 5 2 =
     Inr ''What is the capital of France?'' \<and>
   sample (echo_page ''What is the capital of France?'') ''What is the capital of France?'' 5
     ''.model-response-text'' = None \<and>
   fst (ask_gemini (echo_page ''What is the capital of France?'')
     ''What is the capital of France?'' True) \<noteq> Some ''What is the capital of France?''"
  using never_returns_the_question [of "''What is the capital of France?''"
      "echo_page ''What is the capital of France?''" 5 "''.model-response-text''" True]
  by (simp add: echo_page_def response_region_def mock_page_def sample_def accepted_def
      strip_def is_space_def)

section \<open>Saving the images, container by container\<close>

lemma selector_differs: "download_button_selector \<noteq> ''img.image''"
  by (simp add: download_button_selector_def)

lemma containers_tried_append:
  "containers_tried (xs @ ys) = containers_tried xs @ containers_tried ys"
  by (simp add: containers_tried_def List.map_filter_def)

lemma containers_tried_screenshot:
  "containers_tried (snd (screenshot_image env a od i g)) = []"
  using selector_differs
  by (auto simp: screenshot_image_def containers_tried_def container_tried_def Let_def
      List.map_filter_simps split: sum.splits option.splits)

lemma containers_tried_download:
  "containers_tried (snd (try_download env od i g)) = [g]"
  using containers_tried_screenshot [of env 0 od i g]
  by (auto simp: try_download_def containers_tried_def container_tried_def Let_def
      List.map_filter_simps split: sum.splits option.splits prod.splits)

lemma containers_tried_item:
  "containers_tried (snd (retrieve_item env od i g)) = [g]"
  using containers_tried_download [of env od i g] containers_tried_screenshot [of env 1 od i g]
  by (auto simp: retrieve_item_def containers_tried_append split: sum.splits prod.splits)

lemma retrieve_Cons:
  "retrieve env od i (g # gs) =
     (fst (retrieve_item env od i g) @ fst (retrieve env od (Suc i) gs),
      snd (retrieve_item env od i g) @ snd (retrieve env od (Suc i) gs))"
  by (simp split: prod.splits)

lemma containers_tried_retrieve:
  "containers_tried (snd (retrieve env od i gs)) = gs"
proof (induction gs arbitrary: i)
  case Nil
  show ?case by (simp add: containers_tried_def List.map_filter_simps)
next
  case (Cons g gs)
  then show ?case
    by (simp add: retrieve_Cons containers_tried_append containers_tried_item del: retrieve.simps)
qed

lemma retrieve_items:
  "fst (retrieve env od i gs) =
     concat (map (\<lambda>(j, g). fst (retrieve_item env od j g)) (List.enumerate i gs))"
proof (induction gs arbitrary: i)
  case Nil
  show ?case by simp
next
  case (Cons g gs)
  then show ?case by (simp add: retrieve_Cons del: retrieve.simps)
qed

lemma retrieve_item_fallback:
  "fst (try_download env od i g) = Inl e \<Longrightarrow>
     fst (retrieve_item env od i g) = screenshot_saved env od i g"
  by (auto simp: retrieve_item_def screenshot_saved_def split: prod.splits sum.splits option.splits)

lemma download_images_result:
  "succeeded (mkdir env) \<Longrightarrow> query_generated_images env = Inr gs \<Longrightarrow>
     fst (download_images env od) =
       (if fst (retrieve env od 0 gs) \<noteq> [] then Inr (Some (fst (retrieve env od 0 gs)))
        else Inr None)"
  by (auto simp: download_images_def succeeded_def split: sum.splits prod.splits)

text \<open>
  Claim C5. The containers of the generated images are saved one by one, each on its own:
  the paths saved are those that each container yields by itself, every container is tried
  in order whatever happened to the others, a container whose download attempt raises
  falls back to the screenshot of its image, and the call returns the saved paths when
  there is at least one and \<^verbatim>\<open>None\<close> otherwise.
\<close>

theorem retrieval_isolates_failures:
  "fst (retrieve env od i gs) =
     concat (map (\<lambda>(j, g). fst (retrieve_item env od j g)) (List.enumerate i gs)) \<and>
   containers_tried (snd (retrieve env od i gs)) = gs \<and>
   (\<forall>b e. element_query_selector env 0 g download_button_selector = Inr (Some b) \<and>
      click_download env b = Inl e \<longrightarrow> fst (try_download env od i g) = Inl e) \<and>
   (\<forall>e. fst (try_download env od i g) = Inl e \<longrightarrow>
      fst (retrieve_item env od i g) = screenshot_saved env od i g) \<and>
   (\<forall>img. element_query_selector env 1 g ''img.image'' = Inr (Some img) \<and>
      succeeded (screenshot env 1 img (SavedPath od (i + 1) (time_time env 1 i) ''.png'')) \<longrightarrow>
      screenshot_saved env od i g = [SavedPath od (i + 1) (time_time env 1 i) ''.png'']) \<and>
   (succeeded (mkdir env) \<and> query_generated_images env = Inr gs \<longrightarrow>
      fst (download_images env od) =
        (if fst (retrieve env od 0 gs) \<noteq> [] then Inr (Some (fst (retrieve env od 0 gs)))
         else Inr None))"
proof -
  have "\<forall>b e. element_query_selector env 0 g download_button_selector = Inr (Some b) \<and>
      click_download env b = Inl e \<longrightarrow> fst (try_download env od i g) = Inl e"
    by (simp add: try_download_def)
  moreover
  have "\<forall>img. element_query_selector env 1 g ''img.image'' = Inr (Some img) \<and>
      succeeded (screenshot env 1 img (SavedPath od (i + 1) (time_time env 1 i) ''.png'')) \<longrightarrow>
      screenshot_saved env od i g = [SavedPath od (i + 1) (time_time env 1 i) ''.png'']"
    by (auto simp: screenshot_saved_def screenshot_image_def succeeded_def Let_def
        split: sum.splits)
  ultimately show ?thesis
    using retrieve_items [of env od i gs] containers_tried_retrieve [of env od i gs]
      retrieve_item_fallback [of env od i g] download_images_result [of env gs od]
    by blast
qed

theorem retrieval_isolates_failures_witness:
  "fst (try_download three_images ''out'' (Suc 0) 20) = Inl TimeoutError \<and>
   fst (retrieve_item three_images ''out'' (Suc 0) 20) =
     [SavedPath ''out'' 2 1700000001 ''.png''] \<and>
   fst (download_images three_images ''out'') =
     Inr (Some [SavedPath ''out'' 1 1700000000 ''.jpg'',
                SavedPath ''out'' 2 1700000001 ''.png'',
                SavedPath ''out'' 3 1700000002 ''.jpg'']) \<and>
   containers_tried (snd (retrieve three_images ''out'' 0 [10, 20, 30])) = [10, 20, 30]"
proof -
  have a: "fst (try_download three_images ''out'' (Suc 0) 20) = Inl TimeoutError"
    by (simp add: try_download_def three_images_def mock_page_def)
  have b: "screenshot_saved three_images ''out'' (Suc 0) 20 =
      [SavedPath ''out'' 2 1700000001 ''.png'']"
    by (simp add: screenshot_saved_def screenshot_image_def three_images_def mock_page_def
        download_button_selector_def Let_def)
  have c: "succeeded (mkdir three_images)"
    "query_generated_images three_images = Inr [10, 20, 30]"
    by (simp_all add: three_images_def mock_page_def succeeded_def)
  have d: "fst (retrieve_item three_images ''out'' 0 10) =
      [SavedPath ''out'' 1 1700000000 ''.jpg'']"
    by (simp add: retrieve_item_def try_download_def three_images_def mock_page_def Let_def)
  have e: "fst (retrieve_item three_images ''out'' (Suc (Suc 0)) 30) =
      [SavedPath ''out'' 3 1700000002 ''.jpg'']"
    by (simp add: retrieve_item_def try_download_def three_images_def mock_page_def Let_def)
  note all = retrieval_isolates_failures [of three_images "''out''" 0 "[10, 20, 30]" 20]
  note one = retrieval_isolates_failures [of three_images "''out''" "Suc 0" "[]" 20]
  from one a b have item: "fst (retrieve_item three_images ''out'' (Suc 0) 20) =
      [SavedPath ''out'' 2 1700000001 ''.png'']"
    by (simp del: retrieve.simps)
  from all have "fst (retrieve three_images ''out'' 0 [10, 20, 30]) =
      concat (map (\<lambda>(j, g). fst (retrieve_item three_images ''out'' j g))
        (List.enumerate 0 [10, 20, 30]))"
    by (rule conjunct1)
  with d e item have paths: "fst (retrieve three_images ''out'' 0 [10, 20, 30]) =
      [SavedPath ''out'' 1 1700000000 ''.jpg'', SavedPath ''out'' 2 1700000001 ''.png'',
       SavedPath ''out'' 3 1700000002 ''.jpg'']"
    by (simp del: retrieve.simps)
  from all have tried: "containers_tried (snd (retrieve three_images ''out'' 0 [10, 20, 30])) =
      [10, 20, 30]"
    by blast
  from all c have "fst (download_images three_images ''out'') =
      (if fst (retrieve three_images ''out'' 0 [10, 20, 30]) \<noteq> []
       then Inr (Some (fst (retrieve three_images ''out'' 0 [10, 20, 30]))) else Inr None)"
    by blast
  with paths have "fst (download_images three_images ''out'') =
     Inr (Some [SavedPath ''out'' 1 1700000000 ''.jpg'',
                SavedPath ''out'' 2 1700000001 ''.png'',
                SavedPath ''out'' 3 1700000002 ''.jpg''])"
    by (simp del: retrieve.simps)
  with a item tried show ?thesis by blast
qed

section \<open>Long prompts: fill or typing\<close>

lemma find_actual_input_calls:
  "filter fill_call (snd (find_actual_input env sels)) = [] \<and>
   filter typing_call (snd (find_actual_input env sels)) = []"
  by (induction sels) (auto split: sum.splits option.splits prod.splits)

text \<open>
  Claim C3, as stated, fails: \<^verbatim>\<open>ask_gemini\<close> has no length threshold and types a
  question of 109 characters character by character, with no fill; and
  \<^verbatim>\<open>generate_image\<close> types a prompt of 109 characters character by character when
  \<^verbatim>\<open>page.query_selector\<close> finds no inner input element.
\<close>

theorem length_threshold_counterexample:
  "length long_question > 100 \<and>
   type_question mock_page 1 ''rich-textarea'' long_question =
     (True, [(Click 1, True), (Sleep 500, True), (TypeText 1 long_question 50, True)]) \<and>
   type_prompt no_inner_input 1 long_question False =
     (True, [(Click 1, True), (Sleep 500, True),
             (QuerySelector (actual_input_selectors ! 0), True),
             (QuerySelector (actual_input_selectors ! 1), True),
             (QuerySelector (actual_input_selectors ! 2), True),
             (QuerySelector (actual_input_selectors ! 3), True),
             (TypeText 1 long_question 10, True)])"
  by (simp add: long_question_def type_question_def type_prompt_def mock_page_def
      no_inner_input_def actual_input_selectors_def)

text \<open>
  Claim C3, amended. In \<^verbatim>\<open>generate_image\<close>, once the click on the input field
  returned, a prompt of more than 100 characters is delivered by one fill of the first
  inner input element that \<^verbatim>\<open>page.query_selector\<close> finds, and is not typed; it is typed
  character by character (delay 10) when no inner element is found, and a prompt of at most
  100 characters is typed (delay 20) and never filled. \<^verbatim>\<open>ask_gemini\<close> has no
  threshold: after the click it types character by character (delay 50) first, whatever
  the length.
\<close>

theorem fill_above_threshold:
  "succeeded (click env el) \<Longrightarrow> type_prompt env el prompt debug = (typed, tr) \<Longrightarrow>
     (if length prompt > 100 then
        (case fst (find_actual_input env actual_input_selectors) of
           Some ai \<Rightarrow>
             filter fill_call tr = [(Fill ai prompt, succeeded (fill env ai prompt))] \<and>
             filter typing_call tr = [] \<and> typed = succeeded (fill env ai prompt)
         | None \<Rightarrow>
             filter fill_call tr = [] \<and>
             filter typing_call tr =
               [(TypeText el prompt 10, succeeded (type_text env el prompt 10))])
      else
        filter fill_call tr = [] \<and>
        filter typing_call tr = [(TypeText el prompt 20, succeeded (type_text env el prompt 20))]) \<and>
     take 3 (snd (type_question env el ws prompt)) =
       [(Click el, True), (Sleep 500, True),
        (TypeText el prompt 50, succeeded (type_text env el prompt 50))]"
  using find_actual_input_calls [of env actual_input_selectors]
  by (auto simp: type_prompt_def type_question_def succeeded_def Let_def
      split: sum.splits option.splits prod.splits)

theorem fill_above_threshold_witness:
  "type_prompt mock_page 1 long_question False =
     (True, [(Click 1, True), (Sleep 500, True),
             (QuerySelector (actual_input_selectors ! 0), True),
             (Fill 1 long_question, True), (Sleep 1000, True)]) \<and>
   filter typing_call (snd (type_prompt mock_page 1 long_question False)) = []"
proof -
  have a: "succeeded (click mock_page 1)" by (simp add: mock_page_def succeeded_def)
  have b: "type_prompt mock_page 1 long_question False =
     (True, [(Click 1, True), (Sleep 500, True),
             (QuerySelector (actual_input_selectors ! 0), True),
             (Fill 1 long_question, True), (Sleep 1000, True)])"
    by (simp add: long_question_def type_prompt_def mock_page_def actual_input_selectors_def)
  have c: "length long_question > 100" by (simp add: long_question_def)
  have d: "fst (find_actual_input mock_page actual_input_selectors) = Some 1"
    by (simp add: mock_page_def actual_input_selectors_def)
  from fill_above_threshold [OF a b, of "''rich-textarea''"] b c d show ?thesis by simp
qed

section \<open>One stability counter for all response selectors\<close>

lemma observe_all_count:
  "\<forall>x \<in> set xs. x = None \<or> x = Some t \<Longrightarrow>
   3 \<le> c + length (filter (\<lambda>x. x = Some t) xs) \<Longrightarrow>
   1 \<le> length (filter (\<lambda>x. x = Some t) xs) \<Longrightarrow>
     fst (observe_all xs (a, c, Some t)) = Some t"
proof (induction xs arbitrary: a c)
  case Nil
  then show ?case by simp
next
  case (Cons x xs)
  show ?case
  proof (cases x)
    case None
    with Cons.prems Cons.IH [of c a] show ?thesis by simp
  next
    case (Some u)
    with Cons.prems(1) have u: "u = t" by simp
    show ?thesis
    proof (cases "3 \<le> c + 1")
      case True
      with Some u show ?thesis by simp
    next
      case False
      with Cons.prems Some u have "3 \<le> Suc c + length (filter (\<lambda>x. x = Some t) xs)"
        and "1 \<le> length (filter (\<lambda>x. x = Some t) xs)" by auto
      with Cons.prems(1) Cons.IH [of "Suc c" a] have "fst (observe_all xs (a, Suc c, Some t)) = Some t"
        by simp
      with False Some u show ?thesis by simp
    qed
  qed
qed

lemma observe_all_chorus:
  "\<forall>x \<in> set xs. x = None \<or> x = Some t \<Longrightarrow>
   4 \<le> length (filter (\<lambda>x. x = Some t) xs) \<Longrightarrow> l \<noteq> Some t \<Longrightarrow>
     fst (observe_all xs (a, c, l)) = Some t"
proof (induction xs)
  case Nil
  then show ?case by simp
next
  case (Cons x xs)
  show ?case
  proof (cases x)
    case None
    with Cons show ?thesis by simp
  next
    case (Some u)
    with Cons.prems(1) have u: "u = t" by simp
    from Cons.prems(2) Some u have "3 \<le> 0 + length (filter (\<lambda>x. x = Some t) xs)"
      and "1 \<le> length (filter (\<lambda>x. x = Some t) xs)" by simp_all
    with Cons.prems(1) have "fst (observe_all xs (a, 0, Some t)) = Some t"
      by (intro observe_all_count) simp_all
    with Some u Cons.prems(3) show ?thesis by simp
  qed
qed

lemma filter_positive: "0 < length (filter P xs) \<Longrightarrow> \<exists>x \<in> set xs. P x"
  by (induction xs) (auto split: if_splits)

lemma poll_selector_increment:
  "sample env q k sel = Some t \<Longrightarrow> last_text st = Some t \<Longrightarrow>
   poll_selector env q k sel st = ((st', b), tr) \<Longrightarrow> stable_count st' = stable_count st + 1"
  using poll_selector_observe [of env q k sel st st' b tr]
  by (cases "window_of st") (auto simp: window_of_def split: if_splits)

text \<open>
  Claim C10. In the polling loop of \<^verbatim>\<open>ask_gemini\<close> the counter \<open>stable_count\<close> and
  \<open>last_text\<close> are shared by the eight response selectors of one poll: each selector whose
  last element carries the accepted text that \<open>last_text\<close> already holds adds one to the
  counter. So when at least four selectors see the same accepted text in the first poll,
  the counter reaches 3 in that poll, and the loop returns the text without a single
  one-second sleep.
\<close>

theorem shared_counter_one_tick:
  "(sample env q k sel = Some t \<and> last_text st = Some t \<and>
    poll_selector env q k sel st = ((st', b), tr) \<longrightarrow>
      stable_count st' = stable_count st + 1) \<and>
   ((\<forall>sel \<in> set GEMINI_RESPONSE_SELECTORS.
       sample env q 0 sel = None \<or> sample env q 0 sel = Some t) \<and>
    4 \<le> length (filter (\<lambda>sel. sample env q 0 sel = Some t) GEMINI_RESPONSE_SELECTORS) \<and>
    lag env 0 < 120000 \<longrightarrow>
      answer (fst (poll_loop env q 0 initial_poll_state)) = Some t \<and>
      no_sleep (snd (poll_loop env q 0 initial_poll_state)))"
proof (intro conjI impI)
  assume "sample env q k sel = Some t \<and> last_text st = Some t \<and>
    poll_selector env q k sel st = ((st', b), tr)"
  then show "stable_count st' = stable_count st + 1"
    using poll_selector_increment by blast
next
  assume h: "(\<forall>sel \<in> set GEMINI_RESPONSE_SELECTORS.
       sample env q 0 sel = None \<or> sample env q 0 sel = Some t) \<and>
    4 \<le> length (filter (\<lambda>sel. sample env q 0 sel = Some t) GEMINI_RESPONSE_SELECTORS) \<and>
    lag env 0 < 120000"
  obtain st1 tr1 where tick:
    "poll_selectors env q 0 GEMINI_RESPONSE_SELECTORS initial_poll_state = (st1, tr1)"
    by (metis prod.exhaust)
  from poll_selectors_observe [OF tick]
  have w: "window_of st1 =
      observe_all (map (sample env q 0) GEMINI_RESPONSE_SELECTORS) (None, 0, None)"
    and ns: "no_sleep tr1" by (simp_all add: window_of_def initial_poll_state_def)
  from h have some: "4 \<le> length (filter (\<lambda>x. x = Some t)
      (map (sample env q 0) GEMINI_RESPONSE_SELECTORS))"
    by (simp add: filter_map comp_def)
  from h have all: "\<forall>x \<in> set (map (sample env q 0) GEMINI_RESPONSE_SELECTORS).
      x = None \<or> x = Some t" by auto
  have "fst (observe_all (map (sample env q 0) GEMINI_RESPONSE_SELECTORS) (None, 0, None)) = Some t"
    using all some by (rule observe_all_chorus) simp
  with w have "fst (window_of st1) = Some t" by simp
  then have a: "answer st1 = Some t" by (simp add: window_of_def)
  from some
  have "0 < length (filter (\<lambda>x. x = Some t) (map (sample env q 0) GEMINI_RESPONSE_SELECTORS))"
    by linarith
  then have "\<exists>x \<in> set (map (sample env q 0) GEMINI_RESPONSE_SELECTORS). x = Some t"
    by (rule filter_positive)
  then obtain sel where "sample env q 0 sel = Some t" by auto
  then have "t \<noteq> []" by (auto dest: sample_accepted accepted_nonempty)
  with a have "truthy_str (answer st1)" by simp
  moreover from h have "1000 * 0 + lag env 0 < 120000" by simp
  ultimately have "poll_loop env q 0 initial_poll_state = (st1, tr1)"
    using tick by (simp add: poll_loop_step)
  with a ns show "answer (fst (poll_loop env q 0 initial_poll_state)) = Some t"
    and "no_sleep (snd (poll_loop env q 0 initial_poll_state))" by simp_all
qed

lemma sample_chorus:
  "accepted q (strip text) \<Longrightarrow> sample (chorus_page text) q k sel = Some (strip text)"
  by (simp add: sample_def chorus_page_def mock_page_def)

theorem shared_counter_one_tick_witness:
  "sample (chorus_page ''The answer is 4.'') ''What is 2+2?'' 0 ''.markdown'' =
     Some ''The answer is 4.'' \<and>
   stable_count (seen_once ''The answer is 4.'') = 0 \<and>
   stable_count (fst (fst (poll_selector (chorus_page ''The answer is 4.'') ''What is 2+2?'' 0
     ''.markdown'' (seen_once ''The answer is 4.'')))) = 1 \<and>
   answer (fst (poll_loop (chorus_page ''The answer is 4.'') ''What is 2+2?'' 0
     initial_poll_state)) = Some ''The answer is 4.'' \<and>
   no_sleep (snd (poll_loop (chorus_page ''The answer is 4.'') ''What is 2+2?'' 0
     initial_poll_state))"
proof -
  let ?env = "chorus_page ''The answer is 4.''" and ?q = "''What is 2+2?''"
    and ?t = "''The answer is 4.''"
  have acc: "accepted ?q (strip ?t)" and st: "strip ?t = ?t"
    by (simp_all add: accepted_def strip_def is_space_def)
  have s: "sample ?env ?q 0 sel = Some ?t" for sel
    using sample_chorus [OF acc] st by simp
  have l: "lag ?env 0 < 120000"
    by (simp add: chorus_page_def mock_page_def)
  have n: "4 \<le> length (filter (\<lambda>sel. sample ?env ?q 0 sel = Some ?t) GEMINI_RESPONSE_SELECTORS)"
    by (simp add: s GEMINI_RESPONSE_SELECTORS_def)
  have lt: "last_text (seen_once ?t) = Some ?t" and c0: "stable_count (seen_once ?t) = 0"
    by (simp_all add: seen_once_def initial_poll_state_def)
  obtain st' b tr where step:
    "poll_selector ?env ?q 0 ''.markdown'' (seen_once ?t) = ((st', b), tr)"
    by (metis prod.exhaust)
  from shared_counter_one_tick [of ?env ?q 0 "''.markdown''" ?t "seen_once ?t" st' b tr]
    s l n lt c0 step
  show ?thesis by simp
qed

section \<open>The polling loop on a single response region\<close>

lemma poll_loop_window:
  "single_source env q s0 \<Longrightarrow> 120 - k \<le> n \<Longrightarrow>
     window_of (fst (poll_loop env q k st)) =
       window_run (\<lambda>k. 1000 * k + lag env k < 120000) (\<lambda>k. sample env q k s0) k n
         (window_of st)"
proof (induction n arbitrary: k st)
  case 0
  then have "\<not> 1000 * k + lag env k < 120000" by arith
  then show ?case by (simp add: poll_loop_timeout)
next
  case (Suc n)
  show ?case
  proof (cases "1000 * k + lag env k < 120000")
    case False
    then show ?thesis by (simp add: poll_loop_timeout)
  next
    case True
    obtain st' tr where tick: "poll_selectors env q k GEMINI_RESPONSE_SELECTORS st = (st', tr)"
      by (metis prod.exhaust)
    from poll_tick_single [OF Suc.prems(1) tick]
    have w: "window_of st' = fst (observe (sample env q k s0) (window_of st))"
      and ns: "no_sleep tr" .
    from w have "fst (window_of st') = fst (fst (observe (sample env q k s0) (window_of st)))"
      by simp
    then have a: "answer st' = fst (fst (observe (sample env q k s0) (window_of st)))"
      by (simp add: window_of_def)
    from Suc.prems(2) have "120 - Suc k \<le> n" by simp
    from Suc.IH [OF Suc.prems(1) this, of st'] w a True show ?thesis
      by (simp add: poll_loop_step [OF True tick] Let_def)
  qed
qed

lemma window_run_idle:
  "\<forall>j \<ge> k. f j = None \<Longrightarrow> window_run in_time f k n w = w"
proof (induction n arbitrary: k)
  case 0
  show ?case by simp
next
  case (Suc n)
  from Suc.prems have "f k = None" and "\<forall>j \<ge> Suc k. f j = None" by simp_all
  with Suc.IH [of "Suc k"] show ?case by (simp add: Let_def)
qed

lemma window_run_numeral:
  "window_run in_time f k (numeral v) w =
     (if in_time k then
        (let w' = fst (observe (f k) w)
         in if truthy_str (fst w') then w'
            else window_run in_time f (k + 1) (pred_numeral v) w')
      else w)"
  by (simp add: numeral_eq_Suc Let_def)

lemma sample_response_region:
  "sample (response_region f) q k sel =
     (if sel = ''.model-response-text'' \<and> accepted q (strip (f k))
      then Some (strip (f k)) else None)"
  by (simp add: sample_def response_region_def mock_page_def)

lemma single_source_response_region:
  "single_source (response_region f) q ''.model-response-text''"
  by (simp add: single_source_def sample_response_region GEMINI_RESPONSE_SELECTORS_def)

lemma submits_response_region: "submits (response_region f) q h"
  by (simp add: submits_def response_region_def mock_page_def succeeded_def
      launch_persistent_context_def inject_cookies_def
      GEMINI_INPUT_SELECTORS_def type_question_def)

lemma lag_response_region: "lag (response_region f) k = 0"
  by (simp add: response_region_def mock_page_def)

lemma in_time_response_region: "1000 * k + lag (response_region f) k < 120000 \<longleftrightarrow> k < 120"
  by (simp add: response_region_def mock_page_def)

lemma poll_response_region:
  "120 \<le> n \<Longrightarrow>
   window_of (fst (poll_loop (response_region f) q 0 initial_poll_state)) =
     window_run (\<lambda>k. k < 120)
       (\<lambda>k. if accepted q (strip (f k)) then Some (strip (f k)) else None) 0 n (None, 0, None)"
proof -
  assume n: "120 \<le> n"
  have s: "(\<lambda>k. sample (response_region f) q k ''.model-response-text'') =
      (\<lambda>k. if accepted q (strip (f k)) then Some (strip (f k)) else None)"
    by (simp add: sample_response_region)
  have w0: "window_of initial_poll_state = (None, 0, None)"
    by (simp add: window_of_def initial_poll_state_def)
  from n have "120 - 0 \<le> n" by simp
  from poll_loop_window [OF single_source_response_region this, of f q initial_poll_state]
  show ?thesis by (simp only: in_time_response_region s w0)
qed

lemma answer_window: "answer st = fst (window_of st)"
  by (simp add: window_of_def)

lemma strip_texts:
  "strip ''4'' = ''4''" "strip [] = []" "strip ''Hel'' = ''Hel''" "strip ''Hello'' = ''Hello''"
  "strip ''The answer is 4.'' = ''The answer is 4.''"
  "strip ''Hello, wor'' = ''Hello, wor''" "strip ''Hello, world!'' = ''Hello, world!''"
  "strip ''Hello, world!!'' = ''Hello, world!!''"
  by (simp_all add: strip_def is_space_def)

lemma four_only_times_out:
  "answer (fst (poll_loop four_only ''What is 2+2?'' 0 initial_poll_state)) = None"
  unfolding four_only_def answer_window poll_response_region [OF order_refl]
  by (subst window_run_idle) (simp_all add: accepted_def strip_texts)

lemma hello_times_out:
  "answer (fst (poll_loop hello_page ''Say hello'' 0 initial_poll_state)) = None"
  unfolding hello_page_def answer_window poll_response_region [OF order_refl]
  by (subst window_run_idle) (simp_all add: accepted_def strip_texts)

lemma three_polls_window:
  "accepted q text \<Longrightarrow> strip text = text \<Longrightarrow>
     window_of (fst (poll_loop (three_polls text) q 0 initial_poll_state)) = (None, 2, Some text)"
proof -
  assume acc: "accepted q text" and st: "strip text = text"
  have f: "(\<lambda>k. if accepted q (strip (if k < 3 then text else []))
              then Some (strip (if k < 3 then text else [])) else None) =
           (\<lambda>k. if k < 3 then Some text else None)"
    using acc st by (auto simp: fun_eq_iff strip_texts accepted_def)
  have idle: "3 \<le> k \<Longrightarrow>
      window_run (\<lambda>k. k < 120) (\<lambda>k. if k < 3 then Some text else None) k n w = w"
    for k n w
    by (rule window_run_idle) auto
  from acc have "text \<noteq> []" by (rule accepted_nonempty)
  then show ?thesis
    unfolding three_polls_def poll_response_region [OF order_refl] f
    by (subst window_run_numeral, simp, subst window_run_numeral, simp,
        subst window_run_numeral, simp add: idle)
qed

lemma flicker_window:
  "accepted q text \<Longrightarrow> strip text = text \<Longrightarrow>
     window_of (fst (poll_loop (flicker text) q 0 initial_poll_state)) = (Some text, 3, Some text)"
proof -
  assume acc: "accepted q text" and st: "strip text = text"
  have f: "(\<lambda>k. if accepted q (strip (if even k then text else []))
              then Some (strip (if even k then text else [])) else None) =
           (\<lambda>k. if even k then Some text else None)"
    using acc st by (auto simp: fun_eq_iff strip_texts accepted_def)
  from acc have "text \<noteq> []" by (rule accepted_nonempty)
  then show ?thesis
    unfolding flicker_def poll_response_region [OF order_refl] f
    by (simp add: window_run_numeral)
qed


lemma poll_loop_skip:
  "single_source env q s0 \<Longrightarrow>
   \<forall>j < n. sample env q (k + j) s0 = None \<and> 1000 * (k + j) + lag env (k + j) < 120000 \<Longrightarrow>
   answer st = None \<Longrightarrow>
     \<exists>st'. window_of st' = window_of st \<and>
       fst (poll_loop env q k st) = fst (poll_loop env q (k + n) st') \<and>
       poll_sleeps (snd (poll_loop env q k st)) =
         n + poll_sleeps (snd (poll_loop env q (k + n) st'))"
proof (induction n arbitrary: k st)
  case 0
  show ?case by (rule exI [of _ st]) simp
next
  case (Suc n)
  obtain st1 tr where tick: "poll_selectors env q k GEMINI_RESPONSE_SELECTORS st = (st1, tr)"
    by (metis prod.exhaust)
  from Suc.prems(2)
  have "sample env q (k + 0) s0 = None \<and> 1000 * (k + 0) + lag env (k + 0) < 120000"
    by blast
  then have smp: "sample env q k s0 = None" and guard: "1000 * k + lag env k < 120000"
    by simp_all
  from poll_tick_single [OF Suc.prems(1) tick] smp
  have w: "window_of st1 = window_of st" and ns: "no_sleep tr" by simp_all
  with Suc.prems(3) have a: "answer st1 = None" by (simp add: window_of_def)
  have later: "\<forall>j < n. sample env q (Suc k + j) s0 = None \<and>
      1000 * (Suc k + j) + lag env (Suc k + j) < 120000"
  proof (intro allI impI)
    fix j assume "j < n"
    then have "Suc j < Suc n" by simp
    with Suc.prems(2)
    have "sample env q (k + Suc j) s0 = None \<and>
        1000 * (k + Suc j) + lag env (k + Suc j) < 120000"
      by blast
    then show "sample env q (Suc k + j) s0 = None \<and>
        1000 * (Suc k + j) + lag env (Suc k + j) < 120000"
      by simp
  qed
  from Suc.IH [OF Suc.prems(1) later a]
  obtain st' where st': "window_of st' = window_of st1"
    "fst (poll_loop env q (Suc k) st1) = fst (poll_loop env q (Suc k + n) st')"
    "poll_sleeps (snd (poll_loop env q (Suc k) st1)) =
       n + poll_sleeps (snd (poll_loop env q (Suc k + n) st'))"
    by blast
  show ?case
  proof (rule exI [of _ st'], intro conjI)
    from st'(1) w show "window_of st' = window_of st" by simp
    from a st'(2) show "fst (poll_loop env q k st) = fst (poll_loop env q (k + Suc n) st')"
      by (simp add: poll_loop_step [OF guard tick])
    from a ns st'(3) show "poll_sleeps (snd (poll_loop env q k st)) =
        Suc n + poll_sleeps (snd (poll_loop env q (k + Suc n) st'))"
      by (simp add: poll_loop_step [OF guard tick] poll_sleeps_append poll_sleeps_Cons
          no_sleep_poll_sleeps)
  qed
qed

lemma poll_loop_first_stable:
  assumes single: "single_source env q s0"
    and idle: "\<forall>j < k. sample env q j s0 = None \<and> 1000 * j + lag env j < 120000"
    and four: "\<forall>i \<le> 3. sample env q (k + i) s0 = Some t \<and>
      1000 * (k + i) + lag env (k + i) < 120000"
  shows "answer (fst (poll_loop env q 0 initial_poll_state)) = Some t \<and>
    poll_sleeps (snd (poll_loop env q 0 initial_poll_state)) = k + 3"
proof -
  have a0: "answer initial_poll_state = None" by (simp add: initial_poll_state_def)
  from idle have "\<forall>j < k. sample env q (0 + j) s0 = None \<and>
      1000 * (0 + j) + lag env (0 + j) < 120000" by simp
  from poll_loop_skip [OF single this a0]
  obtain st' where st': "window_of st' = window_of initial_poll_state"
    "fst (poll_loop env q 0 initial_poll_state) = fst (poll_loop env q k st')"
    "poll_sleeps (snd (poll_loop env q 0 initial_poll_state)) =
       k + poll_sleeps (snd (poll_loop env q k st'))"
    by auto
  from st'(1) have "answer st' = None" "last_text st' \<noteq> Some t"
    by (simp_all add: window_of_def initial_poll_state_def)
  from poll_loop_stable [OF single this four] st'(2,3) show ?thesis by simp
qed

text \<open>
  With one source, a returned text was the sample of the poll at which the loop returned,
  equal to the accepted sample before it for the third time in a row.
\<close>

lemma poll_loop_sound:
  "single_source env q s0 \<Longrightarrow>
   window_of st = (None, repeats (\<lambda>k. sample env q k s0) k, last_seen (\<lambda>k. sample env q k s0) k) \<Longrightarrow>
   repeats (\<lambda>k. sample env q k s0) k \<le> 2 \<Longrightarrow>
   answer (fst (poll_loop env q k st)) = Some t \<Longrightarrow>
     \<exists>m \<ge> k. sample env q m s0 = Some t \<and> last_seen (\<lambda>k. sample env q k s0) m = Some t \<and>
       repeats (\<lambda>k. sample env q k s0) m = 2 \<and>
       poll_sleeps (snd (poll_loop env q k st)) = m - k"
proof (induction n \<equiv> "120 - k" arbitrary: k st)
  case 0
  then have "\<not> 1000 * k + lag env k < 120000" by arith
  with "0.prems" show ?case by (simp add: poll_loop_timeout window_of_def)
next
  case (Suc n)
  let ?f = "\<lambda>k. sample env q k s0"
  show ?case
  proof (cases "1000 * k + lag env k < 120000")
    case False
    with Suc.prems show ?thesis by (simp add: poll_loop_timeout window_of_def)
  next
    case guard: True
    obtain st' tr where tick: "poll_selectors env q k GEMINI_RESPONSE_SELECTORS st = (st', tr)"
      by (metis prod.exhaust)
    from poll_tick_single [OF Suc.prems(1) tick]
    have w: "window_of st' = fst (observe (?f k) (window_of st))" and ns: "no_sleep tr" .
    show ?thesis
    proof (cases "\<exists>u. ?f k = Some u \<and> last_seen ?f k = Some u \<and> repeats ?f k = 2")
      case True
      then obtain u where hit: "?f k = Some u" "last_seen ?f k = Some u" "repeats ?f k = 2"
        by blast
      with w Suc.prems(2) have "window_of st' = (Some u, 3, Some u)" by simp
      then have a: "answer st' = Some u" by (simp add: window_of_def)
      from hit(1) have "u \<noteq> []" by (auto dest: sample_accepted accepted_nonempty)
      with a have ret: "poll_loop env q k st = (st', tr)"
        by (simp add: poll_loop_step [OF guard tick])
      with a Suc.prems(4) have "u = t" by simp
      moreover from ret ns have "poll_sleeps (snd (poll_loop env q k st)) = k - k"
        by (simp add: no_sleep_poll_sleeps)
      ultimately show ?thesis using hit by blast
    next
      case miss: False
      have next_w: "window_of st' = (None, repeats ?f (Suc k), last_seen ?f (Suc k)) \<and>
          repeats ?f (Suc k) \<le> 2"
      proof (cases "?f k")
        case None
        with w Suc.prems(2,3) show ?thesis by simp
      next
        case (Some u)
        show ?thesis
        proof (cases "last_seen ?f k = Some u")
          case same: True
          with miss Some have "repeats ?f k \<noteq> 2" by simp
          with Suc.prems(3) have "repeats ?f k < 2" by simp
          with w Some same Suc.prems(2) show ?thesis by simp
        next
          case False
          with w Some Suc.prems(2) show ?thesis by simp
        qed
      qed
      then have a: "answer st' = None" by (simp add: window_of_def)
      then have step: "poll_loop env q k st =
          (fst (poll_loop env q (Suc k) st'),
           tr @ (Sleep 1000, True) # snd (poll_loop env q (Suc k) st'))"
        by (simp add: poll_loop_step [OF guard tick])
      with Suc.prems(4) have ret: "answer (fst (poll_loop env q (Suc k) st')) = Some t" by simp
      from Suc.hyps(2) have "n = 120 - Suc k" by simp
      from Suc.hyps(1) [OF this Suc.prems(1) _ _ ret] next_w
      obtain m where m: "Suc k \<le> m" "?f m = Some t" "last_seen ?f m = Some t"
        "repeats ?f m = 2" "poll_sleeps (snd (poll_loop env q (Suc k) st')) = m - Suc k"
        by blast
      from step ns m(1,5) have "poll_sleeps (snd (poll_loop env q k st)) = m - k"
        by (simp add: poll_sleeps_append poll_sleeps_Cons no_sleep_poll_sleeps)
      with m show ?thesis by (intro exI [of _ m]) simp
    qed
  qed
qed

lemma last_seen_Suc: "f k \<noteq> None \<Longrightarrow> last_seen f (Suc k) = f k"
  by (cases "f k") simp_all

lemma ask_gemini_main_code:
  "fst (ask_gemini_main env q show_browser) =
     (if truthy_str (fst (ask_gemini env q (\<not> show_browser))) then 0 else 1)"
  by (simp add: ask_gemini_main_def split: prod.splits)

section \<open>The end-to-end text flow\<close>

text \<open>
  Claim C1, amended. When the question is submitted and one response selector samples, on
  the first four polls (each before the deadline), the same text of more than 10 characters
  that is not the question, for instance \<open>''The answer is 4.''\<close> for the prompt
  \<open>''What is 2+2?''\<close>, then \<^verbatim>\<open>ask_gemini\<close> returns that text after exactly three
  one-second sleeps of the polling loop, and \<^verbatim>\<open>main\<close> exits with code 0.
\<close>

theorem stable_answer_returned:
  assumes "submits env q (\<not> show_browser)"
    and "single_source env q s0"
    and "\<forall>i \<le> 3. sample env q i s0 = Some t \<and> 1000 * i + lag env i < 120000"
  shows "fst (ask_gemini env q (\<not> show_browser)) = Some t \<and>
    fst (ask_gemini_main env q show_browser) = 0 \<and>
    poll_sleeps (snd (poll_loop env q 0 initial_poll_state)) = 3"
proof -
  from assms(3) have four: "\<forall>i \<le> 3. sample env q (0 + i) s0 = Some t \<and>
      1000 * (0 + i) + lag env (0 + i) < 120000" by simp
  have "\<forall>j < (0::nat). sample env q j s0 = None \<and> 1000 * j + lag env j < 120000" by simp
  from poll_loop_first_stable [OF assms(2) this four]
  have a: "answer (fst (poll_loop env q 0 initial_poll_state)) = Some t"
    and s: "poll_sleeps (snd (poll_loop env q 0 initial_poll_state)) = 3" by simp_all
  from assms(3) have "sample env q 0 s0 = Some t" by blast
  then have "t \<noteq> []" by (auto dest: sample_accepted accepted_nonempty)
  with a ask_gemini_submitted [OF assms(1)]
  have r: "fst (ask_gemini env q (\<not> show_browser)) = Some t" by simp
  with \<open>t \<noteq> []\<close> have "fst (ask_gemini_main env q show_browser) = 0"
    by (simp add: ask_gemini_main_code)
  with r s show ?thesis by simp
qed

lemma sample_steady:
  "accepted q text \<Longrightarrow> strip text = text \<Longrightarrow>
     sample (steady text) q k ''.model-response-text'' = Some text"
  by (simp add: steady_def sample_response_region)

theorem stable_answer_returned_witness:
  "fst (ask_gemini (steady ''The answer is 4.'') ''What is 2+2?'' True) =
     Some ''The answer is 4.'' \<and>
   fst (ask_gemini_main (steady ''The answer is 4.'') ''What is 2+2?'' False) = 0 \<and>
   poll_sleeps (snd (poll_loop (steady ''The answer is 4.'') ''What is 2+2?'' 0
     initial_poll_state)) = 3"
proof -
  have acc: "accepted ''What is 2+2?'' ''The answer is 4.''" by (simp add: accepted_def)
  have sub: "submits (steady ''The answer is 4.'') ''What is 2+2?'' (\<not> False)"
    unfolding steady_def by (rule submits_response_region)
  have single: "single_source (steady ''The answer is 4.'') ''What is 2+2?''
      ''.model-response-text''"
    unfolding steady_def by (rule single_source_response_region)
  have four: "\<forall>i \<le> 3. sample (steady ''The answer is 4.'') ''What is 2+2?'' i
      ''.model-response-text'' = Some ''The answer is 4.'' \<and>
      1000 * i + lag (steady ''The answer is 4.'') i < 120000"
    using sample_steady [OF acc strip_texts(5)]
    by (simp add: steady_def in_time_response_region)
  from stable_answer_returned [OF sub single four] show ?thesis by simp
qed

text \<open>
  Claim C1, as stated, fails. A response region that shows \<open>''4''\<close> at every poll never
  passes \<^verbatim>\<open>len(text) > 10\<close>: \<^verbatim>\<open>ask_gemini\<close> times out, returns \<^verbatim>\<open>None\<close>, and the
  exit code is 1. And three polls are not enough for a text that is long enough: a region
  that shows \<open>''The answer is 4.''\<close> at polls 0, 1 and 2 only leaves the counter at 2.
\<close>

theorem short_answer_counterexample:
  "inner_text four_only 0 2 = Inr ''4'' \<and> inner_text four_only 1 2 = Inr ''4'' \<and>
   inner_text four_only 2 2 = Inr ''4'' \<and>
   fst (ask_gemini four_only ''What is 2+2?'' True) = None \<and>
   fst (ask_gemini_main four_only ''What is 2+2?'' False) = 1 \<and>
   fst (ask_gemini (three_polls ''The answer is 4.'') ''What is 2+2?'' True) = None \<and>
   fst (ask_gemini_main (three_polls ''The answer is 4.'') ''What is 2+2?'' False) = 1"
proof -
  have sub1: "submits four_only ''What is 2+2?'' True"
    unfolding four_only_def by (rule submits_response_region)
  have sub2: "submits (three_polls ''The answer is 4.'') ''What is 2+2?'' True"
    unfolding three_polls_def by (rule submits_response_region)
  have "accepted ''What is 2+2?'' ''The answer is 4.''" by (simp add: accepted_def)
  from three_polls_window [OF this strip_texts(5)]
  have a2: "answer (fst (poll_loop (three_polls ''The answer is 4.'') ''What is 2+2?'' 0
      initial_poll_state)) = None"
    by (simp add: answer_window)
  have r1: "fst (ask_gemini four_only ''What is 2+2?'' True) = None"
    using ask_gemini_submitted [OF sub1] four_only_times_out by simp
  have r2: "fst (ask_gemini (three_polls ''The answer is 4.'') ''What is 2+2?'' True) = None"
    using ask_gemini_submitted [OF sub2] a2 by simp
  have texts: "inner_text four_only 0 2 = Inr ''4''" "inner_text four_only 1 2 = Inr ''4''"
    "inner_text four_only 2 2 = Inr ''4''"
    by (simp_all add: four_only_def response_region_def mock_page_def)
  from r1 r2 texts show ?thesis by (simp add: ask_gemini_main_code)
qed

section \<open>The stability threshold\<close>

text \<open>
  Claim C2, amended. When a single response selector yields the samples, the polling loop
  returns a text exactly when the accepted sample (not empty, not the question, more than
  10 characters) has repeated the accepted sample before it three times. From a state
  whose last text is another one, four polls of the same text \<open>t\<close> in a row return \<open>t\<close>
  at the fourth, after three sleeps; so when the first \<open>k\<close> polls yield no accepted
  sample and the next four yield \<open>t\<close>, the loop returns \<open>t\<close> after \<open>k + 3\<close> sleeps (the
  samples \<open>[]\<close>, \<open>''Hello, wor''\<close>, then \<open>''Hello, world!''\<close> four times, become stable
  at the sixth poll). Conversely a text that the loop returns is the sample of the poll at
  which it returns, equal to the accepted sample before it for the third time in a row.
  And the loop returns \<^verbatim>\<open>None\<close> at the deadline when every accepted sample differs from
  the accepted sample before it.
\<close>

theorem stable_after_four_samples:
  assumes "single_source env q s0"
  shows "(answer st = None \<and> last_text st \<noteq> Some t \<and>
      (\<forall>i \<le> 3. sample env q (k + i) s0 = Some t \<and>
         1000 * (k + i) + lag env (k + i) < 120000) \<longrightarrow>
      answer (fst (poll_loop env q k st)) = Some t \<and>
      poll_sleeps (snd (poll_loop env q k st)) = 3) \<and>
    ((\<forall>j < k. sample env q j s0 = None \<and> 1000 * j + lag env j < 120000) \<and>
      (\<forall>i \<le> 3. sample env q (k + i) s0 = Some t \<and>
         1000 * (k + i) + lag env (k + i) < 120000) \<longrightarrow>
      answer (fst (poll_loop env q 0 initial_poll_state)) = Some t \<and>
      poll_sleeps (snd (poll_loop env q 0 initial_poll_state)) = k + 3) \<and>
    (answer (fst (poll_loop env q 0 initial_poll_state)) = Some t \<longrightarrow>
      (\<exists>m. sample env q m s0 = Some t \<and>
         last_seen (\<lambda>k. sample env q k s0) m = Some t \<and>
         repeats (\<lambda>k. sample env q k s0) m = 2 \<and>
         poll_sleeps (snd (poll_loop env q 0 initial_poll_state)) = m)) \<and>
    ((\<forall>k. sample env q k s0 = None \<or>
          sample env q k s0 \<noteq> last_seen (\<lambda>k. sample env q k s0) k) \<longrightarrow>
      answer (fst (poll_loop env q 0 initial_poll_state)) = None)"
proof (intro conjI impI)
  assume h: "answer st = None \<and> last_text st \<noteq> Some t \<and>
      (\<forall>i \<le> 3. sample env q (k + i) s0 = Some t \<and>
         1000 * (k + i) + lag env (k + i) < 120000)"
  then have "answer st = None" "last_text st \<noteq> Some t"
    "\<forall>i \<le> 3. sample env q (k + i) s0 = Some t \<and> 1000 * (k + i) + lag env (k + i) < 120000"
    by blast+
  from poll_loop_stable [OF assms this]
  show "answer (fst (poll_loop env q k st)) = Some t"
    and "poll_sleeps (snd (poll_loop env q k st)) = 3" by simp_all
next
  assume h: "(\<forall>j < k. sample env q j s0 = None \<and> 1000 * j + lag env j < 120000) \<and>
      (\<forall>i \<le> 3. sample env q (k + i) s0 = Some t \<and>
         1000 * (k + i) + lag env (k + i) < 120000)"
  then have "\<forall>j < k. sample env q j s0 = None \<and> 1000 * j + lag env j < 120000"
    "\<forall>i \<le> 3. sample env q (k + i) s0 = Some t \<and> 1000 * (k + i) + lag env (k + i) < 120000"
    by blast+
  from poll_loop_first_stable [OF assms this]
  show "answer (fst (poll_loop env q 0 initial_poll_state)) = Some t"
    and "poll_sleeps (snd (poll_loop env q 0 initial_poll_state)) = k + 3" by simp_all
next
  assume ret: "answer (fst (poll_loop env q 0 initial_poll_state)) = Some t"
  have w0: "window_of initial_poll_state =
      (None, repeats (\<lambda>k. sample env q k s0) 0, last_seen (\<lambda>k. sample env q k s0) 0)"
    by (simp add: window_of_def initial_poll_state_def)
  have "repeats (\<lambda>k. sample env q k s0) 0 \<le> 2" by simp
  from poll_loop_sound [OF assms w0 this ret]
  show "\<exists>m. sample env q m s0 = Some t \<and>
         last_seen (\<lambda>k. sample env q k s0) m = Some t \<and>
         repeats (\<lambda>k. sample env q k s0) m = 2 \<and>
         poll_sleeps (snd (poll_loop env q 0 initial_poll_state)) = m"
    by auto
next
  assume "\<forall>k. sample env q k s0 = None \<or>
      sample env q k s0 \<noteq> last_seen (\<lambda>k. sample env q k s0) k"
  with assms show "answer (fst (poll_loop env q 0 initial_poll_state)) = None"
    by (rule poll_loop_no_repeat) (simp_all add: initial_poll_state_def)
qed

text \<open>
  Claim C2, as stated, fails, with a single response selector. The samples \<open>[]\<close>,
  \<open>''Hel''\<close>, \<open>''Hello''\<close>, \<open>''Hello''\<close>, \<open>''Hello''\<close> and so on never become
  stable: \<open>''Hello''\<close> has 5 characters and line 196 wants more than 10. Three polls of
  the same accepted text in a row leave the counter at 2 and return nothing. And a text
  that changes at every poll, between \<open>''Hello, world!''\<close> and the empty text, is returned
  at the seventh poll: a rejected sample does not reset the counter.
\<close>

theorem stability_threshold_counterexample:
  "inner_text hello_page 0 2 = Inr [] \<and> inner_text hello_page 1 2 = Inr ''Hel'' \<and>
   inner_text hello_page 2 2 = Inr ''Hello'' \<and> inner_text hello_page 3 2 = Inr ''Hello'' \<and>
   inner_text hello_page 4 2 = Inr ''Hello'' \<and>
   answer (fst (poll_loop hello_page ''Say hello'' 0 initial_poll_state)) = None \<and>
   window_of (fst (poll_loop (three_polls ''Hello, world!'') ''Say hello'' 0
     initial_poll_state)) = (None, 2, Some ''Hello, world!'') \<and>
   answer (fst (poll_loop (flicker ''Hello, world!'') ''Say hello'' 0 initial_poll_state)) =
     Some ''Hello, world!''"
proof -
  have texts: "inner_text hello_page 0 2 = Inr []" "inner_text hello_page 1 2 = Inr ''Hel''"
    "inner_text hello_page 2 2 = Inr ''Hello''" "inner_text hello_page 3 2 = Inr ''Hello''"
    "inner_text hello_page 4 2 = Inr ''Hello''"
    by (simp_all add: hello_page_def response_region_def mock_page_def)
  have acc: "accepted ''Say hello'' ''Hello, world!''" by (simp add: accepted_def)
  from flicker_window [OF acc strip_texts(7)]
  have "answer (fst (poll_loop (flicker ''Hello, world!'') ''Say hello'' 0 initial_poll_state)) =
     Some ''Hello, world!''"
    by (simp add: answer_window)
  with texts hello_times_out three_polls_window [OF acc strip_texts(7)] show ?thesis by simp
qed

lemma sample_growing:
  "sample growing ''Say hello'' k ''.model-response-text'' =
     (if k < 2 then None else Some ''Hello, world!'')"
  by (simp add: growing_def sample_response_region accepted_def strip_texts)

lemma lag_growing: "lag growing k = 0"
  by (simp add: growing_def lag_response_region)

lemma sample_alternating:
  "sample alternating ''Say hello'' k ''.model-response-text'' =
     Some (if even k then ''Hello, world!'' else ''Hello, world!!'')"
  by (simp add: alternating_def sample_response_region accepted_def strip_texts)

lemma alternating_changes:
  "sample alternating ''Say hello'' k ''.model-response-text'' \<noteq>
     last_seen (\<lambda>k. sample alternating ''Say hello'' k ''.model-response-text'') k"
proof (cases k)
  case 0
  then show ?thesis by (simp add: sample_alternating)
next
  case (Suc j)
  have "last_seen (\<lambda>k. sample alternating ''Say hello'' k ''.model-response-text'') (Suc j) =
      sample alternating ''Say hello'' j ''.model-response-text''"
    by (rule last_seen_Suc) (simp add: sample_alternating)
  with Suc show ?thesis by (simp add: sample_alternating)
qed

theorem stable_after_four_samples_witness:
  "answer (fst (poll_loop (steady ''Hello, world!'') ''Say hello'' 0 initial_poll_state)) =
     Some ''Hello, world!'' \<and>
   poll_sleeps (snd (poll_loop (steady ''Hello, world!'') ''Say hello'' 0 initial_poll_state)) = 3 \<and>
   inner_text growing 0 2 = Inr [] \<and> inner_text growing 1 2 = Inr ''Hello, wor'' \<and>
   inner_text growing 2 2 = Inr ''Hello, world!'' \<and>
   inner_text growing 5 2 = Inr ''Hello, world!'' \<and>
   answer (fst (poll_loop growing ''Say hello'' 0 initial_poll_state)) = Some ''Hello, world!'' \<and>
   poll_sleeps (snd (poll_loop growing ''Say hello'' 0 initial_poll_state)) = 5 \<and>
   (\<exists>m. sample growing ''Say hello'' m ''.model-response-text'' = Some ''Hello, world!'' \<and>
      repeats (\<lambda>k. sample growing ''Say hello'' k ''.model-response-text'') m = 2 \<and>
      poll_sleeps (snd (poll_loop growing ''Say hello'' 0 initial_poll_state)) = m) \<and>
   answer (fst (poll_loop alternating ''Say hello'' 0 initial_poll_state)) = None"
proof -
  let ?q = "''Say hello''" and ?s0 = "''.model-response-text''" and ?t = "''Hello, world!''"
  have acc: "accepted ?q ?t" by (simp add: accepted_def)
  have s1: "single_source (steady ?t) ?q ?s0"
    unfolding steady_def by (rule single_source_response_region)
  have s2: "single_source growing ?q ?s0"
    unfolding growing_def by (rule single_source_response_region)
  have s3: "single_source alternating ?q ?s0"
    unfolding alternating_def by (rule single_source_response_region)
  have h1: "answer initial_poll_state = None \<and> last_text initial_poll_state \<noteq> Some ?t \<and>
      (\<forall>i \<le> 3. sample (steady ?t) ?q (0 + i) ?s0 = Some ?t \<and>
         1000 * (0 + i) + lag (steady ?t) (0 + i) < 120000)"
    using sample_steady [OF acc strip_texts(7)]
    by (simp add: initial_poll_state_def steady_def in_time_response_region)
  have h2: "(\<forall>j < 2. sample growing ?q j ?s0 = None \<and> 1000 * j + lag growing j < 120000) \<and>
      (\<forall>i \<le> 3. sample growing ?q (2 + i) ?s0 = Some ?t \<and>
         1000 * (2 + i) + lag growing (2 + i) < 120000)"
    by (simp add: sample_growing lag_growing)
  have h3: "\<forall>k. sample alternating ?q k ?s0 = None \<or>
      sample alternating ?q k ?s0 \<noteq> last_seen (\<lambda>k. sample alternating ?q k ?s0) k"
    using alternating_changes by blast
  have texts: "inner_text growing 0 2 = Inr []" "inner_text growing 1 2 = Inr ''Hello, wor''"
    "inner_text growing 2 2 = Inr ''Hello, world!''"
    "inner_text growing 5 2 = Inr ''Hello, world!''"
    by (simp_all add: growing_def response_region_def mock_page_def)
  from stable_after_four_samples [OF s1, of initial_poll_state ?t 0] h1
  have r1: "answer (fst (poll_loop (steady ?t) ?q 0 initial_poll_state)) = Some ?t \<and>
      poll_sleeps (snd (poll_loop (steady ?t) ?q 0 initial_poll_state)) = 3"
    by blast
  from stable_after_four_samples [OF s2, of initial_poll_state ?t 2] h2
  have r2: "answer (fst (poll_loop growing ?q 0 initial_poll_state)) = Some ?t \<and>
      poll_sleeps (snd (poll_loop growing ?q 0 initial_poll_state)) = 2 + 3"
    by blast
  from stable_after_four_samples [OF s3, of initial_poll_state ?t 0] h3
  have r3: "answer (fst (poll_loop alternating ?q 0 initial_poll_state)) = None"
    by blast
  from stable_after_four_samples [OF s2, of initial_poll_state ?t 2] r2
  have r4: "\<exists>m. sample growing ?q m ?s0 = Some ?t \<and>
      repeats (\<lambda>k. sample growing ?q k ?s0) m = 2 \<and>
      poll_sleeps (snd (poll_loop growing ?q 0 initial_poll_state)) = m"
    by blast
  from r1 r2 r3 r4 texts show ?thesis by simp
qed

end
